theory Spec2Isabelle
  imports Complex_Main "HOL-Library.Sublist" "HOL-Library.Multiset"
begin

section \<open>Strings as the view pipeline uses them\<close>

text \<open>
  A JavaScript string is a sequence of UTF-16 code units. It is modelled as a
  \<^typ>\<open>string\<close>, whose elements are the code units below 256 (the Latin-1 range).
  On that range \<^verbatim>\<open>String.prototype.toLowerCase\<close> maps \<^verbatim>\<open>A\<close> to \<^verbatim>\<open>Z\<close> and the capitals
  \<^verbatim>\<open>0xC0\<close> to \<^verbatim>\<open>0xDE\<close>, the multiplication sign \<^verbatim>\<open>0xD7\<close> excepted, to the unit 32
  above and leaves every other unit alone; \<^verbatim>\<open>String.prototype.trim\<close> strips the white
  space and line terminators of the language, which on that range are TAB, LF, VT, FF, CR,
  SPACE and the no-break space \<^verbatim>\<open>0xA0\<close>, from both ends.
\<close>

definition latin1_upper :: string where
  "latin1_upper =
     ''ABCDEFGHIJKLMNOPQRSTUVWXYZ'' @
     [CHR 0xC0, CHR 0xC1, CHR 0xC2, CHR 0xC3, CHR 0xC4, CHR 0xC5, CHR 0xC6,
      CHR 0xC7, CHR 0xC8, CHR 0xC9, CHR 0xCA, CHR 0xCB, CHR 0xCC, CHR 0xCD,
      CHR 0xCE, CHR 0xCF, CHR 0xD0, CHR 0xD1, CHR 0xD2, CHR 0xD3, CHR 0xD4,
      CHR 0xD5, CHR 0xD6, CHR 0xD8, CHR 0xD9, CHR 0xDA, CHR 0xDB, CHR 0xDC,
      CHR 0xDD, CHR 0xDE]"

definition latin1_lower :: string where
  "latin1_lower =
     ''abcdefghijklmnopqrstuvwxyz'' @
     [CHR 0xE0, CHR 0xE1, CHR 0xE2, CHR 0xE3, CHR 0xE4, CHR 0xE5, CHR 0xE6,
      CHR 0xE7, CHR 0xE8, CHR 0xE9, CHR 0xEA, CHR 0xEB, CHR 0xEC, CHR 0xED,
      CHR 0xEE, CHR 0xEF, CHR 0xF0, CHR 0xF1, CHR 0xF2, CHR 0xF3, CHR 0xF4,
      CHR 0xF5, CHR 0xF6, CHR 0xF8, CHR 0xF9, CHR 0xFA, CHR 0xFB, CHR 0xFC,
      CHR 0xFD, CHR 0xFE]"

definition toLowerCase_char :: "char \<Rightarrow> char" where
  "toLowerCase_char c =
     (case map_of (zip latin1_upper latin1_lower) c of
        None \<Rightarrow> c
      | Some l \<Rightarrow> l)"

definition toLowerCase :: "string \<Rightarrow> string" where
  "toLowerCase s = map toLowerCase_char s"

definition isWhiteSpace :: "char \<Rightarrow> bool" where
  "isWhiteSpace c =
     (c \<in> set [CHR 0x09, CHR 0x0A, CHR 0x0B, CHR 0x0C, CHR 0x0D, CHR '' '', CHR 0xA0])"

definition trim :: "string \<Rightarrow> string" where
  "trim s = rev (dropWhile isWhiteSpace (rev (dropWhile isWhiteSpace s)))"

text \<open>\<^verbatim>\<open>s.includes(q)\<close>: does \<open>q\<close> occur in \<open>s\<close> at some index.\<close>

fun includes_str :: "string \<Rightarrow> string \<Rightarrow> bool" where
  "includes_str [] q = (q = [])"
| "includes_str (c # s) q = (prefix q (c # s) \<or> includes_str s q)"

text \<open>The substring relation in the words of the specification.\<close>

definition is_substring_of :: "string \<Rightarrow> string \<Rightarrow> bool" where
  "is_substring_of q s = (\<exists>before after. s = before @ q @ after)"

section \<open>The bookmark record\<close>

text \<open>
  The object built in \<^verbatim>\<open>handleSave\<close>. Fields that a stored object may lack
  (\<^verbatim>\<open>undefined\<close> or \<^verbatim>\<open>null\<close>) are options.
\<close>

record bookmark =
  id_str :: string
  createdAt :: int
  url :: string
  title :: string
  description :: "string option"
  category :: string
  tags :: "string list"
  notes_str :: "string option"
  image :: "string option"
  favicon :: "string option"
  isFavorite :: bool

section \<open>The derived view: \<^verbatim>\<open>filteredBookmarks\<close>\<close>

text \<open>Step 1, the category filter (source lines 142 to 146).\<close>

definition categoryFilter :: "string \<Rightarrow> bookmark list \<Rightarrow> bookmark list" where
  "categoryFilter activeCategory result =
     (if activeCategory = ''Favorites'' then filter isFavorite result
      else if activeCategory \<noteq> ''All'' then filter (\<lambda>b. category b = activeCategory) result
      else result)"

text \<open>
  Step 2, the search filter (source lines 148 to 156). The callback of \<^verbatim>\<open>filter\<close> is
  \<open>matches\<close>; \<^verbatim>\<open>b.description && ...\<close> is false for a missing or empty description.
\<close>

definition matches :: "string \<Rightarrow> bookmark \<Rightarrow> bool" where
  "matches q b =
     (includes_str (toLowerCase (title b)) q \<or>
      includes_str (toLowerCase (url b)) q \<or>
      list_ex (\<lambda>t. includes_str (toLowerCase t) q) (tags b) \<or>
      (case description b of
         None \<Rightarrow> False
       | Some d \<Rightarrow> d \<noteq> [] \<and> includes_str (toLowerCase d) q))"

definition searchFilter :: "string \<Rightarrow> bookmark list \<Rightarrow> bookmark list" where
  "searchFilter searchQuery result =
     (if trim searchQuery \<noteq> [] then
        (let q = toLowerCase searchQuery in filter (matches q) result)
      else result)"

text \<open>
  Step 3, the sort (source lines 158 to 163). \<^verbatim>\<open>Array.prototype.sort\<close> is a stable sort
  by the sign of the comparator: an element is placed before the first element of the
  sorted rest that it does not have to follow. \<^verbatim>\<open>localeCompare\<close> depends on the host's
  locale and is a parameter.
\<close>

fun insert_by :: "('a \<Rightarrow> 'a \<Rightarrow> int) \<Rightarrow> 'a \<Rightarrow> 'a list \<Rightarrow> 'a list" where
  "insert_by cmp x [] = [x]"
| "insert_by cmp x (y # ys) = (if cmp x y \<le> 0 then x # y # ys else y # insert_by cmp x ys)"

definition array_sort :: "('a \<Rightarrow> 'a \<Rightarrow> int) \<Rightarrow> 'a list \<Rightarrow> 'a list" where
  "array_sort cmp xs = foldr (insert_by cmp) xs []"

definition compareFn :: "(string \<Rightarrow> string \<Rightarrow> int) \<Rightarrow> string \<Rightarrow> bookmark \<Rightarrow> bookmark \<Rightarrow> int" where
  "compareFn localeCompare sortOption a b =
     (if sortOption = ''date-desc'' then createdAt b - createdAt a
      else if sortOption = ''date-asc'' then createdAt a - createdAt b
      else if sortOption = ''alpha'' then localeCompare (title a) (title b)
      else 0)"

definition filteredBookmarks ::
  "(string \<Rightarrow> string \<Rightarrow> int) \<Rightarrow> bookmark list \<Rightarrow> string \<Rightarrow> string \<Rightarrow> string \<Rightarrow> bookmark list" where
  "filteredBookmarks localeCompare bookmarks activeCategory searchQuery sortOption =
     array_sort (compareFn localeCompare sortOption)
       (searchFilter searchQuery (categoryFilter activeCategory bookmarks))"

section \<open>The view in the store\<close>

text \<open>
  \<^verbatim>\<open>filteredBookmarks\<close> copies the state array with \<^verbatim>\<open>[...bookmarks]\<close>, calls
  \<^verbatim>\<open>filter\<close>, which returns a new array, and sorts the array it then holds in place.
  Whether the state array is written depends on which array \<^verbatim>\<open>sort\<close> is called on, so the
  store is explicit: arrays of references at addresses, the bookmark objects behind the
  references, and the next free address.
\<close>

record store =
  arrays :: "nat \<Rightarrow> nat list"
  objects :: "nat \<Rightarrow> bookmark"
  next_free :: nat

definition new_array :: "nat list \<Rightarrow> store \<Rightarrow> nat \<times> store" where
  "new_array refs s =
     (next_free s, s\<lparr>arrays := (arrays s)(next_free s := refs), next_free := Suc (next_free s)\<rparr>)"

definition spread_copy :: "nat \<Rightarrow> store \<Rightarrow> nat \<times> store" where
  "spread_copy a s = new_array (arrays s a) s"

definition array_filter :: "(bookmark \<Rightarrow> bool) \<Rightarrow> nat \<Rightarrow> store \<Rightarrow> nat \<times> store" where
  "array_filter p a s = new_array (filter (\<lambda>r. p (objects s r)) (arrays s a)) s"

definition array_sort_in_place :: "(bookmark \<Rightarrow> bookmark \<Rightarrow> int) \<Rightarrow> nat \<Rightarrow> store \<Rightarrow> store" where
  "array_sort_in_place cmp a s =
     s\<lparr>arrays := (arrays s)(a := array_sort (\<lambda>x y. cmp (objects s x) (objects s y)) (arrays s a))\<rparr>"

definition filteredBookmarks_store ::
  "(string \<Rightarrow> string \<Rightarrow> int) \<Rightarrow> nat \<Rightarrow> string \<Rightarrow> string \<Rightarrow> string \<Rightarrow> store \<Rightarrow> nat \<times> store" where
  "filteredBookmarks_store localeCompare bookmarks activeCategory searchQuery sortOption s =
     (let (result, s1) = spread_copy bookmarks s;
          (result, s2) =
            (if activeCategory = ''Favorites'' then array_filter isFavorite result s1
             else if activeCategory \<noteq> ''All'' then
               array_filter (\<lambda>b. category b = activeCategory) result s1
             else (result, s1));
          (result, s3) =
            (if trim searchQuery \<noteq> [] then
               (let q = toLowerCase searchQuery in array_filter (matches q) result s2)
             else (result, s2));
          s4 = array_sort_in_place (compareFn localeCompare sortOption) result s3
      in (result, s4))"

text \<open>The records an array of the store holds, in order.\<close>

definition contents :: "store \<Rightarrow> nat \<Rightarrow> bookmark list" where
  "contents s a = map (objects s) (arrays s a)"

text \<open>
  What a step of the view may do to the store \<open>s0\<close> it started from: it leaves the
  objects and every array that existed in \<open>s0\<close> as they were, and the array \<open>r\<close> it hands
  on was allocated after \<open>s0\<close> and holds the records \<open>xs\<close>.
\<close>

definition hands_on :: "store \<Rightarrow> nat \<Rightarrow> store \<Rightarrow> bookmark list \<Rightarrow> bool" where
  "hands_on s0 r s xs =
     (objects s = objects s0 \<and> (\<forall>a < next_free s0. arrays s a = arrays s0 a) \<and>
      next_free s0 \<le> r \<and> r < next_free s \<and> contents s r = xs)"

section \<open>The form and the collection model\<close>

text \<open>
  \<^verbatim>\<open>formData\<close>, the draft of the add/edit form. Its \<^verbatim>\<open>tags\<close> field is the text of the
  input, split on save. No code path gives it an \<^verbatim>\<open>id\<close>, a \<^verbatim>\<open>createdAt\<close> or an
  \<^verbatim>\<open>isFavorite\<close> key.
\<close>

record form =
  form_url :: string
  form_title :: string
  form_description :: string
  form_category :: string
  form_tags :: string
  form_notes :: string
  form_image :: "string option"
  form_favicon :: "string option"

text \<open>
  JavaScript truthiness of a value that is \<^verbatim>\<open>null\<close>/\<^verbatim>\<open>undefined\<close> or a string: the
  empty string is falsy as well.
\<close>

definition truthy :: "string option \<Rightarrow> bool" where
  "truthy v = (case v of None \<Rightarrow> False | Some s \<Rightarrow> s \<noteq> [])"

text \<open>\<^verbatim>\<open>s.split(',')\<close>: the pieces between commas; the empty string gives one empty piece.\<close>

fun split_comma :: "string \<Rightarrow> string list" where
  "split_comma [] = [[]]"
| "split_comma (c # s) =
     (if c = CHR '','' then [] # split_comma s
      else (case split_comma s of [] \<Rightarrow> [[c]] | w # ws \<Rightarrow> (c # w) # ws))"

definition tagsArray :: "string \<Rightarrow> string list" where
  "tagsArray t = filter (\<lambda>t. t \<noteq> []) (map trim (split_comma t))"

text \<open>\<^verbatim>\<open>Date.now().toString()\<close>: the decimal numeral of the clock reading.\<close>

fun digits :: "nat \<Rightarrow> string" where
  "digits n =
     (if n < 10 then [''0123456789'' ! n]
      else digits (n div 10) @ [''0123456789'' ! (n mod 10)])"

declare digits.simps [simp del]

definition toString :: "int \<Rightarrow> string" where
  "toString i = (if i < 0 then CHR ''-'' # digits (nat (- i)) else digits (nat i))"

text \<open>
  The object literal \<^verbatim>\<open>newBookmark\<close> of \<^verbatim>\<open>handleSave\<close>, given the three values that do
  not come from the form.
\<close>

definition newBookmark :: "string \<Rightarrow> int \<Rightarrow> bool \<Rightarrow> form \<Rightarrow> bookmark" where
  "newBookmark i created fav formData =
     \<lparr>id_str = i, createdAt = created,
      url = form_url formData, title = form_title formData,
      description = Some (form_description formData), category = form_category formData,
      tags = tagsArray (form_tags formData), notes_str = Some (form_notes formData),
      image = form_image formData, favicon = form_favicon formData,
      isFavorite = fav\<rparr>"

text \<open>
  The exits of \<^verbatim>\<open>handleSave\<close>:
  \<^item> \<open>Ignored\<close>: \<^verbatim>\<open>if (!formData.url) return;\<close>
  \<^item> \<open>DuplicateURL\<close>: \<^verbatim>\<open>setUrlError('This URL is already saved.'); return;\<close>
  \<^item> \<open>TypeError\<close>: \<^verbatim>\<open>bookmarks.find(b => b.id === editingId)\<close> is \<^verbatim>\<open>undefined\<close> and its
    \<^verbatim>\<open>createdAt\<close> is read; no state is set
  \<^item> \<open>Committed bs\<close>: \<^verbatim>\<open>setBookmarks\<close> makes \<open>bs\<close> the collection and the form closes.
\<close>

datatype save_outcome = Ignored | DuplicateURL | TypeError | Committed "bookmark list"

text \<open>
  \<^verbatim>\<open>handleSave\<close> (source lines 224 to 251). \<open>now1\<close> and \<open>now2\<close> are the two readings of
  \<^verbatim>\<open>Date.now()\<close>, the first for the id and the second for \<^verbatim>\<open>createdAt\<close>; \<open>editingId\<close> is
  \<^verbatim>\<open>null\<close> (\<open>None\<close>) or the id of the bookmark the form was opened on.
\<close>

definition handleSave ::
  "int \<Rightarrow> int \<Rightarrow> bookmark list \<Rightarrow> string option \<Rightarrow> form \<Rightarrow> save_outcome" where
  "handleSave now1 now2 bookmarks editingId formData =
     (if form_url formData = [] then Ignored
      else if List.find (\<lambda>b. url b = form_url formData \<and> Some (id_str b) \<noteq> editingId) bookmarks
              \<noteq> None
      then DuplicateURL
      else if truthy editingId then
        (case List.find (\<lambda>b. Some (id_str b) = editingId) bookmarks of
           None \<Rightarrow> TypeError
         | Some found \<Rightarrow>
             Committed
               (map (\<lambda>b. if Some (id_str b) = editingId
                          then newBookmark (the editingId) (createdAt found) (isFavorite found) formData
                          else b) bookmarks))
      else Committed (newBookmark (toString now1) now2 False formData # bookmarks))"

text \<open>\<^verbatim>\<open>handleDelete\<close> (source lines 253 to 257); \<open>confirmed\<close> is the answer to the dialog.\<close>

definition handleDelete :: "bool \<Rightarrow> string \<Rightarrow> bookmark list \<Rightarrow> bookmark list" where
  "handleDelete confirmed i bookmarks =
     (if confirmed then filter (\<lambda>b. id_str b \<noteq> i) bookmarks else bookmarks)"

text \<open>
  The operations on the collection: a save with \<open>editingId = None\<close> is the specification's
  \<open>add\<close>, a save with \<open>editingId = Some i\<close> its \<open>update\<close> of \<open>i\<close>, a delete its \<open>remove\<close>.
  A save that does not commit leaves the collection as it is.
\<close>

datatype operation = Save "string option" form int int | Delete string bool

fun apply_operation :: "bookmark list \<Rightarrow> operation \<Rightarrow> bookmark list" where
  "apply_operation bookmarks (Save editingId formData now1 now2) =
     (case handleSave now1 now2 bookmarks editingId formData of
        Committed bs \<Rightarrow> bs
      | _ \<Rightarrow> bookmarks)"
| "apply_operation bookmarks (Delete i confirmed) = handleDelete confirmed i bookmarks"

definition run :: "bookmark list \<Rightarrow> operation list \<Rightarrow> bookmark list" where
  "run bookmarks ops = foldl apply_operation bookmarks ops"

text \<open>
  What the invariant needs from the environment: when a save creates a bookmark, the
  numeral of the clock reading is not an id of the collection at that moment, and a save
  that edits carries a truthy id.
\<close>

fun admissible_operation :: "bookmark list \<Rightarrow> operation \<Rightarrow> bool" where
  "admissible_operation bookmarks (Save editingId formData now1 now2) =
     (truthy editingId \<or> (editingId = None \<and> toString now1 \<notin> set (map id_str bookmarks)))"
| "admissible_operation bookmarks (Delete i confirmed) = True"

fun admissible :: "bookmark list \<Rightarrow> operation list \<Rightarrow> bool" where
  "admissible bookmarks [] = True"
| "admissible bookmarks (op # ops) =
     (admissible_operation bookmarks op \<and> admissible (apply_operation bookmarks op) ops)"

section \<open>Import\<close>

text \<open>
  The values \<^verbatim>\<open>JSON.parse\<close> returns. \<^verbatim>\<open>JSON.parse\<close> itself belongs to the host and is a
  parameter: a partial map from texts to values, undefined where it throws.
\<close>

datatype json =
  JNull
| JBool bool
| JNumber real
| JString string
| JArray "json list"
| JObject "(string \<times> json) list"

definition isArray :: "json \<Rightarrow> bool" where
  "isArray j = (case j of JArray xs \<Rightarrow> True | _ \<Rightarrow> False)"

text \<open>
  The \<^verbatim>\<open>onload\<close> handler of \<^verbatim>\<open>importData\<close> (source lines 311 to 323), from the text of the
  file and the collection to the collection afterwards and the message of the alert.
  \<^verbatim>\<open>setBookmarks(json)\<close> stores the parsed array as it is, so the collection is a list of
  JSON values here.
\<close>

definition importData :: "(string \<rightharpoonup> json) \<Rightarrow> string \<Rightarrow> json list \<Rightarrow> json list \<times> string" where
  "importData JSON_parse text bookmarks =
     (case JSON_parse text of
        None \<Rightarrow> (bookmarks, ''Error parsing JSON.'')
      | Some json \<Rightarrow>
          (case json of
             JArray xs \<Rightarrow> (xs, ''Import successful!'')
           | _ \<Rightarrow> (bookmarks, ''Invalid file format.'')))"

text \<open>
  The minimal bookmark shape in the words of the specification: an object in which
  \<^verbatim>\<open>url\<close> and \<^verbatim>\<open>id\<close> resolve.
\<close>

definition minimal_bookmark_shape :: "json \<Rightarrow> bool" where
  "minimal_bookmark_shape j =
     (case j of
        JObject kvs \<Rightarrow> map_of kvs ''url'' \<noteq> None \<and> map_of kvs ''id'' \<noteq> None
      | _ \<Rightarrow> False)"

section \<open>Metadata enrichment: \<^verbatim>\<open>fetchMetadata\<close>\<close>

text \<open>The test \<^verbatim>\<open>/^https?:\/\//i\<close> and the URL that is sent to the lookup service.\<close>

definition hasScheme :: "string \<Rightarrow> bool" where
  "hasScheme u = (prefix ''http://'' (toLowerCase u) \<or> prefix ''https://'' (toLowerCase u))"

definition validUrl :: "string \<Rightarrow> string" where
  "validUrl u = (if hasScheme u then u else ''https://'' @ u)"

definition faviconFor :: "string \<Rightarrow> string" where
  "faviconFor v = ''https://www.google.com/s2/favicons?domain='' @ v @ ''&sz=64''"

text \<open>
  What the request to the lookup service comes back with. \<open>LookupFailed\<close> stands for
  everything that takes the \<^verbatim>\<open>catch\<close> branch: a rejected \<^verbatim>\<open>fetch\<close>, a body that is not
  JSON, a status other than \<^verbatim>\<open>'success'\<close>, a missing \<^verbatim>\<open>data\<close>. \<open>LookupSuccess\<close> carries
  \<^verbatim>\<open>title\<close>, \<^verbatim>\<open>description\<close>, \<^verbatim>\<open>image?.url\<close> and \<^verbatim>\<open>logo?.url\<close>.
\<close>

datatype lookup_response =
  LookupFailed
| LookupSuccess "string option" "string option" "string option" "string option"

text \<open>
  The ways \<^verbatim>\<open>fetchMetadata\<close> ends:
  \<^item> \<open>Skipped\<close>: \<^verbatim>\<open>if (!url) return;\<close>
  \<^item> \<open>AlreadySaved\<close>: \<^verbatim>\<open>setUrlError('This URL is already saved.')\<close>
  \<^item> \<open>Enriched f\<close>: the success branch sets the form to \<open>f\<close>
  \<^item> \<open>Degraded f\<close>: the \<^verbatim>\<open>catch\<close> branch logs \<^verbatim>\<open>"Metadata fetch failed"\<close> and sets the form
    to the fallback \<open>f\<close>; \<^verbatim>\<open>fetchError\<close> stays empty
  \<^item> \<open>InvalidURL\<close>: the \<^verbatim>\<open>catch\<close> branch logs and \<^verbatim>\<open>new URL\<close> throws:
    \<^verbatim>\<open>setFetchError('Invalid URL format')\<close>, the form is not set
  \<^item> \<open>UpdaterThrew\<close>: in the success branch \<^verbatim>\<open>new URL\<close> throws inside the state updater,
    outside the \<^verbatim>\<open>try\<close>.
\<close>

datatype fetch_outcome =
  Skipped
| AlreadySaved
| Enriched form
| Degraded form
| InvalidURL
| UpdaterThrew

text \<open>
  \<^verbatim>\<open>fetchMetadata\<close> up to its \<^verbatim>\<open>await\<close>: it ends at once, or it waits for the answer to a
  request for one URL.
\<close>

datatype fetch_step = Done fetch_outcome | Await string

definition fetchMetadata_request :: "bookmark list \<Rightarrow> string option \<Rightarrow> string \<Rightarrow> fetch_step" where
  "fetchMetadata_request bookmarks editingId rawUrl =
     (if rawUrl = [] then Done Skipped
      else if List.find (\<lambda>b. url b = rawUrl \<and> Some (id_str b) \<noteq> editingId) bookmarks \<noteq> None
      then Done AlreadySaved
      else Await (validUrl rawUrl))"

text \<open>
  \<^verbatim>\<open>fetchMetadata\<close> from the answer on. \<open>hostname\<close> is \<^verbatim>\<open>new URL(validUrl).hostname\<close>,
  undefined where the constructor throws; \<open>prev\<close> is the form the updater is applied to.
\<close>

definition fetchMetadata_response ::
  "(string \<rightharpoonup> string) \<Rightarrow> string \<Rightarrow> lookup_response \<Rightarrow> form \<Rightarrow> fetch_outcome" where
  "fetchMetadata_response hostname v response prev =
     (case response of
        LookupSuccess t d img logo \<Rightarrow>
          (let rest = prev\<lparr>form_url := v,
                       form_description := (if truthy d then the d else form_description prev),
                       form_image := (if truthy img then img else None),
                       form_favicon := (if truthy logo then logo else Some (faviconFor v))\<rparr>
           in if truthy t then Enriched (rest\<lparr>form_title := the t\<rparr>)
              else if form_title prev \<noteq> [] then Enriched (rest\<lparr>form_title := form_title prev\<rparr>)
              else (case hostname v of
                      None \<Rightarrow> UpdaterThrew
                    | Some h \<Rightarrow> Enriched (rest\<lparr>form_title := h\<rparr>)))
      | LookupFailed \<Rightarrow>
          (case hostname v of
             None \<Rightarrow> InvalidURL
           | Some h \<Rightarrow>
               Degraded (prev\<lparr>form_url := v,
                              form_title := (if form_title prev \<noteq> [] then form_title prev else h),
                              form_favicon := Some (faviconFor v)\<rparr>)))"

definition fetchMetadata ::
  "(string \<rightharpoonup> string) \<Rightarrow> (string \<Rightarrow> lookup_response) \<Rightarrow> bookmark list \<Rightarrow> string option \<Rightarrow>
   form \<Rightarrow> string \<Rightarrow> fetch_outcome" where
  "fetchMetadata hostname lookup bookmarks editingId prev rawUrl =
     (case fetchMetadata_request bookmarks editingId rawUrl of
        Done outcome \<Rightarrow> outcome
      | Await v \<Rightarrow> fetchMetadata_response hostname v (lookup v) prev)"

section \<open>Adding through the form\<close>

text \<open>
  How a new bookmark reaches \<^verbatim>\<open>handleSave\<close>. The form is open with no editing id and the
  url field holds what was typed. \<^verbatim>\<open>handleSave\<close> is called by the save button alone
  (source line 748), and the button can only be pressed after the url field has lost focus,
  which runs \<^verbatim>\<open>fetchMetadata(formData.url)\<close> (source line 670). The button is disabled
  while the url is empty or \<^verbatim>\<open>urlError\<close> is set, so:
  \<^item> after \<open>Skipped\<close> there is nothing to save;
  \<^item> after \<open>AlreadySaved\<close> the message \<^verbatim>\<open>This URL is already saved.\<close> stands under the
    field and the button stays disabled;
  \<^item> after \<open>Enriched f\<close> or \<open>Degraded f\<close> the button saves the form \<open>f\<close>;
  \<^item> after \<open>InvalidURL\<close> the form is as typed and the button, which \<^verbatim>\<open>fetchError\<close> does
    not disable, saves it;
  \<^item> after \<open>UpdaterThrew\<close> the exception ends the rendering.
\<close>

definition blur_then_save ::
  "(string \<rightharpoonup> string) \<Rightarrow> (string \<Rightarrow> lookup_response) \<Rightarrow> int \<Rightarrow> int \<Rightarrow> bookmark list \<Rightarrow>
   form \<Rightarrow> save_outcome" where
  "blur_then_save hostname lookup now1 now2 bookmarks typed =
     (case fetchMetadata hostname lookup bookmarks None typed (form_url typed) of
        Skipped \<Rightarrow> Ignored
      | AlreadySaved \<Rightarrow> DuplicateURL
      | Enriched f \<Rightarrow> handleSave now1 now2 bookmarks None f
      | Degraded f \<Rightarrow> handleSave now1 now2 bookmarks None f
      | InvalidURL \<Rightarrow> handleSave now1 now2 bookmarks None typed
      | UpdaterThrew \<Rightarrow> TypeError)"

section \<open>Example values\<close>

text \<open>The record and the drafts of the specification's examples.\<close>

definition bookmark_a :: bookmark where
  "bookmark_a =
     \<lparr>id_str = ''1'', createdAt = 100, url = ''https://a.com'', title = ''A'',
      description = None, category = ''Dev'', tags = [''x''], notes_str = None,
      image = None, favicon = None, isFavorite = False\<rparr>"

definition bookmark_devtools :: bookmark where
  "bookmark_devtools =
     bookmark_a\<lparr>id_str := ''2'', createdAt := 300, url := ''https://b.com'',
                 title := ''B'', tags := [''devtools'']\<rparr>"

definition bookmark_c :: bookmark where
  "bookmark_c =
     bookmark_a\<lparr>id_str := ''3'', createdAt := 200, url := ''https://c.com'',
                 title := ''C'', isFavorite := True\<rparr>"

text \<open>A record whose title starts with a capital outside ASCII, E with acute accent.\<close>

definition bookmark_ecole :: bookmark where
  "bookmark_ecole =
     bookmark_a\<lparr>id_str := ''5'', url := ''https://e.org'', title := CHR 0xC9 # ''cole''\<rparr>"

definition blank_form :: form where
  "blank_form =
     \<lparr>form_url = [], form_title = [], form_description = [],
      form_category = ''Uncategorized'', form_tags = [], form_notes = [],
      form_image = None, form_favicon = None\<rparr>"

definition bookmark_blank_id :: bookmark where
  "bookmark_blank_id = bookmark_a\<lparr>id_str := []\<rparr>"

definition form_a :: form where
  "form_a = blank_form\<lparr>form_url := ''https://a.com'', form_title := ''A again''\<rparr>"

definition form_b :: form where
  "form_b = blank_form\<lparr>form_url := ''https://b.com'', form_title := ''B''\<rparr>"

definition form_bare :: form where
  "form_bare = blank_form\<lparr>form_url := ''a.com'', form_title := ''A bare''\<rparr>"

text \<open>
  Two stores that hold the same three records in one array, at different addresses and
  behind different references.
\<close>

definition example_store :: store where
  "example_store =
     \<lparr>arrays = (\<lambda>a. [])(0 := [0, 1, 2]),
      objects = (\<lambda>r. bookmark_a)(1 := bookmark_devtools, 2 := bookmark_c),
      next_free = 1\<rparr>"

definition example_store_b :: store where
  "example_store_b =
     \<lparr>arrays = (\<lambda>a. [])(2 := [7, 8, 9]),
      objects = (\<lambda>r. bookmark_a)(8 := bookmark_devtools, 9 := bookmark_c),
      next_free = 3\<rparr>"

text \<open>A bookmark whose url was stored as typed, without a scheme.\<close>

definition bookmark_bare :: bookmark where
  "bookmark_bare = bookmark_a\<lparr>id_str := ''4'', url := ''a.com''\<rparr>"

text \<open>
  A lookup service that cannot be reached, and a url parser that knows two addresses and
  rejects everything else, among it every address with a space in the host.
\<close>

definition lookup_down :: "string \<Rightarrow> lookup_response" where
  "lookup_down u = LookupFailed"

definition hostname_example :: "string \<rightharpoonup> string" where
  "hostname_example = [''https://a.com'' \<mapsto> ''a.com'', ''https://b.com'' \<mapsto> ''b.com'']"

definition form_spaced :: form where
  "form_spaced = blank_form\<lparr>form_url := ''a b''\<rparr>"

definition form_spaced_scheme :: form where
  "form_spaced_scheme = blank_form\<lparr>form_url := ''https://a b''\<rparr>"

text \<open>A stored object reduced to the two keys of the minimal shape.\<close>

definition minimal_json :: "string \<Rightarrow> string \<Rightarrow> json" where
  "minimal_json i u = JObject [(''id'', JString i), (''url'', JString u)]"

text \<open>A stand-in for \<^verbatim>\<open>localeCompare\<close> in the examples: comparison by code units.\<close>

fun compare_code_units :: "string \<Rightarrow> string \<Rightarrow> int" where
  "compare_code_units [] [] = 0"
| "compare_code_units [] (d # t) = - 1"
| "compare_code_units (c # s) [] = 1"
| "compare_code_units (c # s) (d # t) =
     (if (of_char c :: nat) < of_char d then - 1
      else if (of_char d :: nat) < of_char c then 1
      else compare_code_units s t)"

section \<open>Search\<close>

text \<open>
  The string functions on code units outside ASCII: the no-break space is trimmed, the
  Latin-1 capitals are folded, and the multiplication sign, the sharp s, the micro sign and
  y with diaeresis stay as they are.
\<close>

lemma trim_examples:
  "trim (CHR 0xA0 # '' a b '' @ [CHR 0x09, CHR 0xA0]) = ''a b'' \<and> trim [CHR 0xA0] = [] \<and>
   trim [CHR 0x85] = [CHR 0x85]"
  by (simp add: trim_def isWhiteSpace_def)

lemma toLowerCase_examples:
  "toLowerCase (CHR 0xC9 # ''Cole'') = CHR 0xE9 # ''cole'' \<and>
   toLowerCase [CHR 0xC0, CHR 0xD6, CHR 0xD8, CHR 0xDE] = [CHR 0xE0, CHR 0xF6, CHR 0xF8, CHR 0xFE] \<and>
   toLowerCase [CHR 0xD7, CHR 0xDF, CHR 0xB5, CHR 0xFF] = [CHR 0xD7, CHR 0xDF, CHR 0xB5, CHR 0xFF]"
  by (simp add: toLowerCase_def toLowerCase_char_def latin1_upper_def latin1_lower_def)

lemma tagsArray_examples:
  "tagsArray ''react, dev,, news ,'' = [''react'', ''dev'', ''news''] \<and>
   tagsArray (''a,'' @ [CHR 0xA0] @ ''b'') = [''a'', ''b''] \<and> tagsArray [] = []"
  by (simp add: tagsArray_def trim_def isWhiteSpace_def)

lemma includes_iff: "includes_str s q \<longleftrightarrow> is_substring_of q s"
  unfolding is_substring_of_def
proof (induction s)
  case Nil
  show ?case by auto
next
  case (Cons c s)
  have "(\<exists>before after. c # s = before @ q @ after) \<longleftrightarrow>
        prefix q (c # s) \<or> (\<exists>before after. s = before @ q @ after)"
    using sublist_Cons_right [of q c s] by (simp add: sublist_def)
  with Cons show ?case by simp
qed

lemma toLowerCase_Nil_iff: "toLowerCase s = [] \<longleftrightarrow> s = []"
  by (simp add: toLowerCase_def)

lemma trim_nonempty: "trim s \<noteq> [] \<Longrightarrow> s \<noteq> []"
  by (auto simp: trim_def)

lemma matches_iff:
  assumes "q \<noteq> []"
  shows "matches q b \<longleftrightarrow>
     is_substring_of q (toLowerCase (title b)) \<or>
     is_substring_of q (toLowerCase (url b)) \<or>
     (\<exists>t \<in> set (tags b). is_substring_of q (toLowerCase t)) \<or>
     (\<exists>d. description b = Some d \<and> is_substring_of q (toLowerCase d))"
proof -
  have "(case description b of None \<Rightarrow> False
          | Some d \<Rightarrow> d \<noteq> [] \<and> includes_str (toLowerCase d) q) \<longleftrightarrow>
        (\<exists>d. description b = Some d \<and> is_substring_of q (toLowerCase d))"
  proof (cases "description b")
    case None
    then show ?thesis by simp
  next
    case (Some d)
    have "is_substring_of q (toLowerCase d) \<Longrightarrow> d \<noteq> []"
      using assms by (auto simp: is_substring_of_def toLowerCase_def)
    with Some show ?thesis by (auto simp: includes_iff)
  qed
  then show ?thesis
    by (simp add: matches_def includes_iff list_ex_iff)
qed

text \<open>
  Claim C6. With a query that is empty after trimming the search filter returns the
  category-filtered list as it is. Otherwise it keeps, in their order, exactly the records
  for which the lowercased query is a substring of the lowercased title, of the lowercased
  url, of some lowercased tag, or of the lowercased description when there is one.
\<close>

theorem search_filter_spec:
  "(trim searchQuery = [] \<longrightarrow> searchFilter searchQuery result = result) \<and>
   (trim searchQuery \<noteq> [] \<longrightarrow>
      searchFilter searchQuery result =
        filter (\<lambda>b.
          is_substring_of (toLowerCase searchQuery) (toLowerCase (title b)) \<or>
          is_substring_of (toLowerCase searchQuery) (toLowerCase (url b)) \<or>
          (\<exists>t \<in> set (tags b). is_substring_of (toLowerCase searchQuery) (toLowerCase t)) \<or>
          (\<exists>d. description b = Some d \<and>
                is_substring_of (toLowerCase searchQuery) (toLowerCase d))) result)"
proof (intro conjI impI)
  assume "trim searchQuery = []"
  then show "searchFilter searchQuery result = result"
    by (simp add: searchFilter_def)
next
  assume ne: "trim searchQuery \<noteq> []"
  then have "toLowerCase searchQuery \<noteq> []"
    using trim_nonempty toLowerCase_Nil_iff by blast
  then have "matches (toLowerCase searchQuery) = (\<lambda>b.
     is_substring_of (toLowerCase searchQuery) (toLowerCase (title b)) \<or>
     is_substring_of (toLowerCase searchQuery) (toLowerCase (url b)) \<or>
     (\<exists>t \<in> set (tags b). is_substring_of (toLowerCase searchQuery) (toLowerCase t)) \<or>
     (\<exists>d. description b = Some d \<and>
           is_substring_of (toLowerCase searchQuery) (toLowerCase d)))"
    by (intro ext matches_iff)
  with ne show "searchFilter searchQuery result =
        filter (\<lambda>b.
          is_substring_of (toLowerCase searchQuery) (toLowerCase (title b)) \<or>
          is_substring_of (toLowerCase searchQuery) (toLowerCase (url b)) \<or>
          (\<exists>t \<in> set (tags b). is_substring_of (toLowerCase searchQuery) (toLowerCase t)) \<or>
          (\<exists>d. description b = Some d \<and>
                is_substring_of (toLowerCase searchQuery) (toLowerCase d))) result"
    by (simp add: searchFilter_def)
qed

theorem search_filter_spec_witness:
  "trim ''  '' = [] \<and> searchFilter ''  '' [bookmark_a] = [bookmark_a] \<and>
   trim [CHR 0xA0] = [] \<and> searchFilter [CHR 0xA0] [bookmark_a] = [bookmark_a] \<and>
   trim ''Dev'' \<noteq> [] \<and>
   filter (\<lambda>b.
     is_substring_of (toLowerCase ''Dev'') (toLowerCase (title b)) \<or>
     is_substring_of (toLowerCase ''Dev'') (toLowerCase (url b)) \<or>
     (\<exists>t \<in> set (tags b). is_substring_of (toLowerCase ''Dev'') (toLowerCase t)) \<or>
     (\<exists>d. description b = Some d \<and>
           is_substring_of (toLowerCase ''Dev'') (toLowerCase d)))
     [bookmark_a, bookmark_devtools] = [bookmark_devtools] \<and>
   trim (CHR 0xE9 # ''C'') \<noteq> [] \<and>
   filter (\<lambda>b.
     is_substring_of (toLowerCase (CHR 0xE9 # ''C'')) (toLowerCase (title b)) \<or>
     is_substring_of (toLowerCase (CHR 0xE9 # ''C'')) (toLowerCase (url b)) \<or>
     (\<exists>t \<in> set (tags b). is_substring_of (toLowerCase (CHR 0xE9 # ''C'')) (toLowerCase t)) \<or>
     (\<exists>d. description b = Some d \<and>
           is_substring_of (toLowerCase (CHR 0xE9 # ''C'')) (toLowerCase d)))
     [bookmark_a, bookmark_ecole] = [bookmark_ecole]"
proof -
  have blank: "trim ''  '' = []" "trim [CHR 0xA0] = []"
    by (simp_all add: trim_def isWhiteSpace_def)
  have nonblank: "trim ''Dev'' \<noteq> []" "trim (CHR 0xE9 # ''C'') \<noteq> []"
    by (simp_all add: trim_def isWhiteSpace_def)
  have found: "searchFilter ''Dev'' [bookmark_a, bookmark_devtools] = [bookmark_devtools]"
    by code_simp
  have accent: "searchFilter (CHR 0xE9 # ''C'') [bookmark_a, bookmark_ecole] = [bookmark_ecole]"
    by code_simp
  show ?thesis
    using search_filter_spec [of "''  ''" "[bookmark_a]"]
      search_filter_spec [of "[CHR 0xA0]" "[bookmark_a]"]
      search_filter_spec [of "''Dev''" "[bookmark_a, bookmark_devtools]"]
      search_filter_spec [of "CHR 0xE9 # ''C''" "[bookmark_a, bookmark_ecole]"]
      blank nonblank found accent
    by simp
qed

section \<open>Sorting by date\<close>

lemma insert_by_date_asc:
  "insert_by (compareFn lc ''date-asc'') x ys = insort_key createdAt x ys"
  by (induction ys) (simp_all add: compareFn_def)

lemma insert_by_date_desc:
  "insert_by (compareFn lc ''date-desc'') x ys = insort_key (\<lambda>b. - createdAt b) x ys"
  by (induction ys) (simp_all add: compareFn_def)

lemma array_sort_date_asc:
  "array_sort (compareFn lc ''date-asc'') xs = sort_key createdAt xs"
  by (induction xs) (simp_all add: array_sort_def insert_by_date_asc)

lemma array_sort_date_desc:
  "array_sort (compareFn lc ''date-desc'') xs = sort_key (\<lambda>b. - createdAt b) xs"
  by (induction xs) (simp_all add: array_sort_def insert_by_date_desc)

lemma sorted_negated_rev:
  fixes f :: "'a \<Rightarrow> int"
  shows "sorted (map f ys) \<Longrightarrow> sorted (rev (map (\<lambda>x. - f x) ys))"
  by (induction ys) (auto simp: sorted_append)

lemma sort_key_negated:
  fixes f :: "'a \<Rightarrow> int"
  shows "sort_key (\<lambda>x. - f x) xs = rev (sort_key f (rev xs))"
proof (rule properties_for_sort_key)
  show "mset (rev (sort_key f (rev xs))) = mset xs"
    by simp
next
  fix k
  have "filter (\<lambda>x. f x = f k) (sort_key f (rev xs)) = filter (\<lambda>x. f x = f k) (rev xs)"
    by (rule sort_key_stable)
  then have "filter (\<lambda>x. f x = f k) (rev (sort_key f (rev xs))) = filter (\<lambda>x. f x = f k) xs"
    by (simp add: rev_filter [symmetric])
  moreover have "(\<lambda>x. - f k = - f x) = (\<lambda>x. f x = f k)"
    by auto
  ultimately show "filter (\<lambda>x. - f k = - f x) (rev (sort_key f (rev xs))) = filter (\<lambda>x. - f k = - f x) xs"
    by simp
next
  have "sorted (map f (sort_key f (rev xs)))"
    by simp
  then have "sorted (rev (map (\<lambda>x. - f x) (sort_key f (rev xs))))"
    by (rule sorted_negated_rev)
  then show "sorted (map (\<lambda>x. - f x) (rev (sort_key f (rev xs))))"
    by (simp add: rev_map)
qed

lemma sort_key_rev_distinct:
  fixes f :: "'a \<Rightarrow> int"
  assumes "distinct (map f xs)"
  shows "sort_key f (rev xs) = sort_key f xs"
proof (rule sort_key_inj_key_eq)
  show "mset (rev xs) = mset (sort_key f xs)"
    by simp
  show "inj_on f (set (rev xs))"
    using assms by (simp add: distinct_map)
  show "sorted (map f (sort_key f xs))"
    by simp
qed

lemma map_sort_key_rev:
  fixes f :: "'a \<Rightarrow> int"
  shows "map f (sort_key f (rev xs)) = map f (sort_key f xs)"
proof -
  have key: "sort (map f zs) = map f (sort_key f zs)" for zs
    by (rule properties_for_sort) simp_all
  have "sort (map f (rev xs)) = sort (map f xs)"
    by (rule properties_for_sort) simp_all
  then show ?thesis
    by (simp add: key)
qed

lemma sorted_hd_least:
  fixes f :: "'a \<Rightarrow> int"
  assumes "sorted (map f ys)" and "ys \<noteq> []"
  shows "f (hd ys) = Min (f ` set ys)"
proof -
  obtain y ys' where ys: "ys = y # ys'"
    using assms(2) by (cases ys) auto
  with assms(1) have "\<forall>z \<in> set ys'. f y \<le> f z"
    by simp
  with ys show ?thesis
    by (auto intro!: Min_eqI [symmetric])
qed

lemma sorted_negated_hd_greatest:
  fixes f :: "'a \<Rightarrow> int"
  assumes "sorted (map (\<lambda>x. - f x) ys)" and "ys \<noteq> []"
  shows "f (hd ys) = Max (f ` set ys)"
proof -
  obtain y ys' where ys: "ys = y # ys'"
    using assms(2) by (cases ys) auto
  with assms(1) have "\<forall>z \<in> set ys'. f z \<le> f y"
    by simp
  with ys show ?thesis
    by (auto intro!: Max_eqI [symmetric])
qed

text \<open>
  Claim C7. For every list, sorting by \<^verbatim>\<open>date-desc\<close> gives the reversal of sorting the
  reversed list by \<^verbatim>\<open>date-asc\<close>; when the \<^verbatim>\<open>createdAt\<close> values are pairwise distinct it
  is the reversal of sorting the list itself by \<^verbatim>\<open>date-asc\<close>. In general the two results
  hold the same records, their sequences of \<^verbatim>\<open>createdAt\<close> values are reversals of each
  other, and each keeps records of equal \<^verbatim>\<open>createdAt\<close> in the order of the input. The
  \<^verbatim>\<open>date-asc\<close> result is ascending and starts with the smallest \<^verbatim>\<open>createdAt\<close>, the
  \<^verbatim>\<open>date-desc\<close> result is descending and starts with the largest.
\<close>

theorem date_sorts_are_inverse:
  "array_sort (compareFn lc ''date-desc'') xs =
     rev (array_sort (compareFn lc ''date-asc'') (rev xs)) \<and>
   (distinct (map createdAt xs) \<longrightarrow>
      array_sort (compareFn lc ''date-desc'') xs = rev (array_sort (compareFn lc ''date-asc'') xs)) \<and>
   map createdAt (array_sort (compareFn lc ''date-desc'') xs) =
     rev (map createdAt (array_sort (compareFn lc ''date-asc'') xs)) \<and>
   mset (array_sort (compareFn lc ''date-desc'') xs) = mset xs \<and>
   mset (array_sort (compareFn lc ''date-asc'') xs) = mset xs \<and>
   (\<forall>k. filter (\<lambda>b. createdAt b = k) (array_sort (compareFn lc ''date-desc'') xs) =
        filter (\<lambda>b. createdAt b = k) xs) \<and>
   (\<forall>k. filter (\<lambda>b. createdAt b = k) (array_sort (compareFn lc ''date-asc'') xs) =
        filter (\<lambda>b. createdAt b = k) xs) \<and>
   sorted (map createdAt (array_sort (compareFn lc ''date-asc'') xs)) \<and>
   sorted (rev (map createdAt (array_sort (compareFn lc ''date-desc'') xs))) \<and>
   (xs \<noteq> [] \<longrightarrow>
      createdAt (hd (array_sort (compareFn lc ''date-desc'') xs)) = Max (createdAt ` set xs) \<and>
      createdAt (hd (array_sort (compareFn lc ''date-asc'') xs)) = Min (createdAt ` set xs))"
proof -
  let ?desc = "array_sort (compareFn lc ''date-desc'')"
  let ?asc = "array_sort (compareFn lc ''date-asc'')"
  have exact: "?desc xs = rev (?asc (rev xs))"
    by (simp add: array_sort_date_asc array_sort_date_desc sort_key_negated)
  have strict: "?desc xs = rev (?asc xs)" if "distinct (map createdAt xs)"
    using that exact by (simp add: array_sort_date_asc sort_key_rev_distinct)
  have "rev (map createdAt (sort_key createdAt (rev xs))) =
        rev (map createdAt (sort_key createdAt xs))"
    by (simp only: map_sort_key_rev)
  then have keys: "map createdAt (?desc xs) = rev (map createdAt (?asc xs))"
    by (simp add: exact array_sort_date_asc rev_map)
  have perm: "mset (?desc xs) = mset xs" "mset (?asc xs) = mset xs"
    by (simp_all add: array_sort_date_asc array_sort_date_desc)
  have stable_asc: "filter (\<lambda>b. createdAt b = k) (?asc xs) = filter (\<lambda>b. createdAt b = k) xs" for k
    by (simp add: array_sort_date_asc sort_key_stable)
  have "filter (\<lambda>b. - createdAt b = - k) (?desc xs) = filter (\<lambda>b. - createdAt b = - k) xs" for k
    unfolding array_sort_date_desc by (rule sort_key_stable)
  then have stable_desc:
    "filter (\<lambda>b. createdAt b = k) (?desc xs) = filter (\<lambda>b. createdAt b = k) xs" for k
    by simp
  have sorted_asc: "sorted (map createdAt (?asc xs))"
    by (simp add: array_sort_date_asc)
  have sorted_neg: "sorted (map (\<lambda>b. - createdAt b) (?desc xs))"
    by (simp add: array_sort_date_desc)
  have sorted_desc: "sorted (rev (map createdAt (?desc xs)))"
    using sorted_asc keys by simp
  have ends: "createdAt (hd (?desc xs)) = Max (createdAt ` set xs) \<and>
              createdAt (hd (?asc xs)) = Min (createdAt ` set xs)" if "xs \<noteq> []"
  proof -
    from that perm have ne: "?desc xs \<noteq> []" "?asc xs \<noteq> []"
      by auto
    have sets: "set (?desc xs) = set xs" "set (?asc xs) = set xs"
      using perm by (auto dest: mset_eq_setD)
    show ?thesis
      using sorted_negated_hd_greatest [OF sorted_neg ne(1)] sorted_hd_least [OF sorted_asc ne(2)]
      by (simp add: sets)
  qed
  show ?thesis
    using exact strict keys perm stable_asc stable_desc sorted_asc sorted_desc ends
    by blast
qed


theorem date_sorts_are_inverse_witness:
  "distinct (map createdAt [bookmark_a, bookmark_devtools, bookmark_c]) \<and>
   [bookmark_a, bookmark_devtools, bookmark_c] \<noteq> [] \<and>
   array_sort (compareFn compare_code_units ''date-desc'') [bookmark_a, bookmark_devtools, bookmark_c] =
     [bookmark_devtools, bookmark_c, bookmark_a] \<and>
   rev (array_sort (compareFn compare_code_units ''date-asc'') [bookmark_a, bookmark_devtools, bookmark_c]) =
     [bookmark_devtools, bookmark_c, bookmark_a] \<and>
   Max (createdAt ` set [bookmark_a, bookmark_devtools, bookmark_c]) = 300 \<and>
   Min (createdAt ` set [bookmark_a, bookmark_devtools, bookmark_c]) = 100"
proof -
  have keys: "distinct (map createdAt [bookmark_a, bookmark_devtools, bookmark_c])"
    by code_simp
  have desc: "array_sort (compareFn compare_code_units ''date-desc'')
                [bookmark_a, bookmark_devtools, bookmark_c] =
              [bookmark_devtools, bookmark_c, bookmark_a]"
    by code_simp
  have asc: "array_sort (compareFn compare_code_units ''date-asc'')
                [bookmark_a, bookmark_devtools, bookmark_c] =
              [bookmark_a, bookmark_c, bookmark_devtools]"
    by code_simp
  have first: "createdAt bookmark_devtools = 300" "createdAt bookmark_a = 100"
    by (simp_all add: bookmark_devtools_def bookmark_a_def)
  show ?thesis
    using date_sorts_are_inverse [of compare_code_units "[bookmark_a, bookmark_devtools, bookmark_c]"]
      keys first
    unfolding desc asc
    by simp
qed

section \<open>The collection model\<close>

text \<open>The definitions that evaluate the model on the example values.\<close>

lemmas eval_defs = toString_def digits.simps newBookmark_def tagsArray_def trim_def isWhiteSpace_def
  bookmark_a_def bookmark_devtools_def bookmark_c_def blank_form_def bookmark_blank_id_def
  form_a_def form_b_def form_bare_def handleSave_def handleDelete_def truthy_def run_def
  toLowerCase_def toLowerCase_char_def latin1_upper_def latin1_lower_def validUrl_def
  hasScheme_def

lemma handleSave_duplicate_iff:
  "handleSave now1 now2 bookmarks editingId formData = DuplicateURL \<longleftrightarrow>
     form_url formData \<noteq> [] \<and>
     (\<exists>b \<in> set bookmarks. url b = form_url formData \<and> Some (id_str b) \<noteq> editingId)"
  by (auto simp: handleSave_def find_None_iff split: option.splits)

lemma handleSave_add:
  assumes "\<not> truthy editingId" and "form_url formData \<noteq> []"
    and "\<forall>b \<in> set bookmarks. url b = form_url formData \<longrightarrow> Some (id_str b) = editingId"
  shows "handleSave now1 now2 bookmarks editingId formData =
           Committed (newBookmark (toString now1) now2 False formData # bookmarks)"
  using assms by (auto simp: handleSave_def find_None_iff)

lemma handleSave_update:
  assumes "i \<noteq> []" and "form_url formData \<noteq> []"
    and "\<forall>b \<in> set bookmarks. url b = form_url formData \<longrightarrow> id_str b = i"
    and "List.find (\<lambda>b. id_str b = i) bookmarks = Some found"
  shows "handleSave now1 now2 bookmarks (Some i) formData =
           Committed (map (\<lambda>b. if id_str b = i
                                 then newBookmark i (createdAt found) (isFavorite found) formData
                                 else b) bookmarks)"
  using assms by (auto simp: handleSave_def find_None_iff truthy_def)

lemma handleSave_committed_accepted:
  "handleSave now1 now2 bookmarks editingId formData = Committed bs \<Longrightarrow>
     form_url formData \<noteq> [] \<and>
     (\<forall>b \<in> set bookmarks. url b = form_url formData \<longrightarrow> Some (id_str b) = editingId)"
  by (auto simp: handleSave_def find_None_iff split: if_splits option.splits)

lemma handleSave_committed_update:
  "handleSave now1 now2 bookmarks (Some i) formData = Committed bs \<Longrightarrow> i \<noteq> [] \<Longrightarrow>
     \<exists>found. List.find (\<lambda>b. id_str b = i) bookmarks = Some found \<and>
       bs = map (\<lambda>b. if id_str b = i
                      then newBookmark i (createdAt found) (isFavorite found) formData
                      else b) bookmarks"
  by (auto simp: handleSave_def truthy_def split: if_splits option.splits)

lemma handleSave_committed_add:
  "handleSave now1 now2 bookmarks editingId formData = Committed bs \<Longrightarrow> \<not> truthy editingId \<Longrightarrow>
     bs = newBookmark (toString now1) now2 False formData # bookmarks"
  by (auto simp: handleSave_def split: if_splits option.splits)

lemma newBookmark_simps [simp]:
  "id_str (newBookmark i c f formData) = i"
  "createdAt (newBookmark i c f formData) = c"
  "isFavorite (newBookmark i c f formData) = f"
  "url (newBookmark i c f formData) = form_url formData"
  by (simp_all add: newBookmark_def)

lemma replace_keeps_ids:
  "id_str new = i \<Longrightarrow> map id_str (map (\<lambda>b. if id_str b = i then new else b) bs) = map id_str bs"
  by (induction bs) auto

lemma replace_absent:
  "i \<notin> set (map id_str bs) \<Longrightarrow> map (\<lambda>b. if id_str b = i then new else b) bs = bs"
  by (induction bs) auto

lemma replace_keeps_urls_distinct:
  assumes "distinct (map id_str bs)" and "distinct (map url bs)"
    and "\<forall>b \<in> set bs. url b = url new \<longrightarrow> id_str b = i"
  shows "distinct (map url (map (\<lambda>b. if id_str b = i then new else b) bs))"
  using assms
proof (induction bs)
  case Nil
  then show ?case by simp
next
  case (Cons b bs)
  let ?f = "\<lambda>b. if id_str b = i then new else b"
  have rest: "\<forall>x \<in> set bs. url x = url new \<longrightarrow> id_str x = i"
    using Cons.prems(3) by simp
  show ?case
  proof (cases "id_str b = i")
    case True
    with Cons.prems(1) have absent: "i \<notin> set (map id_str bs)"
      by auto
    with rest have "url new \<notin> set (map url bs)"
      by force
    with True Cons.prems(2) show ?thesis
      by (simp add: replace_absent [OF absent])
  next
    case False
    with Cons.prems(3) have differs: "url b \<noteq> url new"
      by auto
    have others: "url b \<notin> url ` set bs"
      using Cons.prems(2) by simp
    have "url b \<notin> set (map url (map ?f bs))"
    proof
      assume "url b \<in> set (map url (map ?f bs))"
      then obtain x where "x \<in> set bs" and "url b = url (?f x)"
        by auto
      with differs others show False
        by (cases "id_str x = i") auto
    qed
    moreover have "distinct (map url (map ?f bs))"
      using Cons.IH Cons.prems(1,2) rest by simp
    moreover have "map url (map ?f (b # bs)) = url b # map url (map ?f bs)"
      using False by simp
    ultimately show ?thesis
      by (simp only: distinct.simps) simp
  qed
qed

lemma apply_operation_invariant:
  assumes "distinct (map id_str bs)" and "distinct (map url bs)" and "admissible_operation bs op"
  shows "distinct (map id_str (apply_operation bs op)) \<and> distinct (map url (apply_operation bs op))"
proof (cases op)
  case (Delete i confirmed)
  with assms(1,2) show ?thesis
    by (simp add: handleDelete_def distinct_map_filter)
next
  case (Save editingId formData now1 now2)
  show ?thesis
  proof (cases "handleSave now1 now2 bs editingId formData")
    case (Committed bs')
    note facts = handleSave_committed_accepted [OF Committed]
    show ?thesis
    proof (cases "truthy editingId")
      case True
      then obtain i where i: "editingId = Some i" "i \<noteq> []"
        by (auto simp: truthy_def split: option.splits)
      from handleSave_committed_update [OF Committed [unfolded i(1)] i(2)] obtain found where
        "List.find (\<lambda>b. id_str b = i) bs = Some found" and
        bs': "bs' = map (\<lambda>b. if id_str b = i
                               then newBookmark i (createdAt found) (isFavorite found) formData
                               else b) bs"
        by (elim exE conjE)
      let ?new = "newBookmark i (createdAt found) (isFavorite found) formData"
      have "\<forall>b \<in> set bs. url b = url ?new \<longrightarrow> id_str b = i"
        using facts i by simp
      then have "distinct (map url bs')"
        unfolding bs' using assms(1,2) by (intro replace_keeps_urls_distinct)
      moreover have "distinct (map id_str bs')"
        unfolding bs' using assms(1) by (simp only: replace_keeps_ids newBookmark_simps)
      ultimately show ?thesis
        using Save Committed by simp
    next
      case False
      with assms(3) Save have none: "editingId = None"
        and fresh: "toString now1 \<notin> set (map id_str bs)"
        by auto
      have bs': "bs' = newBookmark (toString now1) now2 False formData # bs"
        using Committed False by (rule handleSave_committed_add)
      have "form_url formData \<notin> set (map url bs)"
        using facts none by auto
      with fresh assms(1,2) show ?thesis
        using Save Committed bs' by simp
    qed
  qed (use assms Save in simp_all)
qed

lemma run_Cons: "run bs (op # ops) = run (apply_operation bs op) ops"
  by (simp add: run_def)

text \<open>
  Claim C1, amended. Take a collection with pairwise distinct ids and pairwise distinct
  urls and a finite sequence of saves and deletes in which every save with no editing id
  reads a clock value whose numeral is not an id of the collection at that moment and every
  other save carries a non-empty editing id. Then the resulting collection again has
  pairwise distinct ids and pairwise distinct urls.
\<close>

theorem collection_invariant:
  assumes "distinct (map id_str bookmarks)" and "distinct (map url bookmarks)"
    and "admissible bookmarks ops"
  shows "distinct (map id_str (run bookmarks ops)) \<and> distinct (map url (run bookmarks ops))"
  using assms
proof (induction ops arbitrary: bookmarks)
  case Nil
  then show ?case by (simp add: run_def)
next
  case (Cons op ops)
  from Cons.prems have step:
    "distinct (map id_str (apply_operation bookmarks op)) \<and>
     distinct (map url (apply_operation bookmarks op))"
    by (intro apply_operation_invariant) simp_all
  from Cons.prems have "admissible (apply_operation bookmarks op) ops"
    by simp
  with step show ?case
    unfolding run_Cons by (intro Cons.IH) simp_all
qed

theorem collection_invariant_witness:
  "distinct (map id_str [bookmark_a]) \<and> distinct (map url [bookmark_a]) \<and>
   admissible [bookmark_a]
     [Save None form_b 1700000000000 1700000000001, Save (Some ''1'') form_bare 0 0,
      Save None form_a 1700000000500 1700000000500, Delete ''1700000000000'' True] \<and>
   distinct (map id_str (run [bookmark_a]
     [Save None form_b 1700000000000 1700000000001, Save (Some ''1'') form_bare 0 0,
      Save None form_a 1700000000500 1700000000500, Delete ''1700000000000'' True])) \<and>
   distinct (map url (run [bookmark_a]
     [Save None form_b 1700000000000 1700000000001, Save (Some ''1'') form_bare 0 0,
      Save None form_a 1700000000500 1700000000500, Delete ''1700000000000'' True]))"
proof -
  have ids: "distinct (map id_str [bookmark_a])" and urls: "distinct (map url [bookmark_a])"
    by simp_all
  have ok: "admissible [bookmark_a]
     [Save None form_b 1700000000000 1700000000001, Save (Some ''1'') form_bare 0 0,
      Save None form_a 1700000000500 1700000000500, Delete ''1700000000000'' True]"
    by (simp add: eval_defs)
  show ?thesis
    using collection_invariant [OF ids urls ok] ids urls ok by simp
qed

text \<open>
  Counterexample to claim C1 as stated. Two saves that read the same clock value give two
  records the same id. A save that edits the record whose id is the empty string takes the
  branch that creates a record, and the collection then holds its url twice.
\<close>

theorem collection_invariant_counterexample:
  "\<not> distinct (map id_str (run []
       [Save None form_a 1700000000000 1700000000000,
        Save None form_b 1700000000000 1700000000000])) \<and>
   distinct (map id_str [bookmark_blank_id]) \<and> distinct (map url [bookmark_blank_id]) \<and>
   \<not> distinct (map url (run [bookmark_blank_id]
       [Save (Some []) form_a 1700000000000 1700000000000]))"
  by (simp add: eval_defs)

section \<open>Finding the record that is edited\<close>

lemma find_by_id:
  assumes "distinct (map id_str bs)" and "old \<in> set bs"
  shows "List.find (\<lambda>b. id_str b = id_str old) bs = Some old"
  using assms by (induction bs) auto

lemma find_some_id:
  assumes "\<exists>b \<in> set bs. id_str b = i"
  shows "\<exists>found. List.find (\<lambda>b. id_str b = i) bs = Some found"
  using assms by (cases "List.find (\<lambda>b. id_str b = i) bs") (auto simp: find_None_iff)

section \<open>Editing a bookmark\<close>

lemma same_id_same_record:
  assumes "distinct (map id_str bs)" and "b \<in> set bs" and "old \<in> set bs"
    and "id_str b = id_str old"
  shows "b = old"
proof -
  from assms(1) have "inj_on id_str (set bs)"
    by (simp add: distinct_map)
  with assms(2-4) show ?thesis
    by (rule_tac inj_onD)
qed

text \<open>
  Claim C3, amended. In a collection with pairwise distinct ids, take the record \<open>old\<close>
  with a non-empty id \<open>i\<close>. A save that edits \<open>i\<close> with a draft it accepts (a non-empty
  url that no record with another id has) commits a collection of the same length in which
  the place of \<open>old\<close> holds a record with the id, the \<^verbatim>\<open>createdAt\<close> and the
  \<^verbatim>\<open>isFavorite\<close> of \<open>old\<close> and every other field taken from the draft (the tags being the
  split, trimmed, non-empty pieces of the draft's tag text), and every other place holds
  what it held. Whatever the draft, accepted or not, the record with id \<open>i\<close> has the
  \<^verbatim>\<open>createdAt\<close> and \<^verbatim>\<open>isFavorite\<close> of \<open>old\<close> afterwards.
\<close>

theorem update_frame:
  assumes "distinct (map id_str bookmarks)" and "i \<noteq> []"
    and "old \<in> set bookmarks" and "id_str old = i"
  shows "(form_url formData \<noteq> [] \<and>
          (\<forall>b \<in> set bookmarks. url b = form_url formData \<longrightarrow> id_str b = i) \<longrightarrow>
          (\<exists>bs. handleSave now1 now2 bookmarks (Some i) formData = Committed bs \<and>
             length bs = length bookmarks \<and>
             (\<forall>n < length bookmarks.
                (bookmarks ! n = old \<longrightarrow>
                   bs ! n =
                     \<lparr>id_str = i, createdAt = createdAt old,
                      url = form_url formData, title = form_title formData,
                      description = Some (form_description formData),
                      category = form_category formData,
                      tags = tagsArray (form_tags formData),
                      notes_str = Some (form_notes formData),
                      image = form_image formData, favicon = form_favicon formData,
                      isFavorite = isFavorite old\<rparr>) \<and>
                (bookmarks ! n \<noteq> old \<longrightarrow> bs ! n = bookmarks ! n)))) \<and>
         (\<forall>b \<in> set (apply_operation bookmarks (Save (Some i) formData now1 now2)).
            id_str b = i \<longrightarrow> createdAt b = createdAt old \<and> isFavorite b = isFavorite old)"
proof -
  have found: "List.find (\<lambda>b. id_str b = i) bookmarks = Some old"
    using find_by_id [OF assms(1,3)] assms(4) by simp
  have only: "b = old" if "b \<in> set bookmarks" and "id_str b = i" for b
    using that assms(1,3,4) by (intro same_id_same_record [of bookmarks]) simp_all
  let ?new = "newBookmark i (createdAt old) (isFavorite old) formData"
  let ?bs = "map (\<lambda>b. if id_str b = i then ?new else b) bookmarks"
  have first: "\<exists>bs. handleSave now1 now2 bookmarks (Some i) formData = Committed bs \<and>
             length bs = length bookmarks \<and>
             (\<forall>n < length bookmarks.
                (bookmarks ! n = old \<longrightarrow>
                   bs ! n =
                     \<lparr>id_str = i, createdAt = createdAt old,
                      url = form_url formData, title = form_title formData,
                      description = Some (form_description formData),
                      category = form_category formData,
                      tags = tagsArray (form_tags formData),
                      notes_str = Some (form_notes formData),
                      image = form_image formData, favicon = form_favicon formData,
                      isFavorite = isFavorite old\<rparr>) \<and>
                (bookmarks ! n \<noteq> old \<longrightarrow> bs ! n = bookmarks ! n))"
    if ok: "form_url formData \<noteq> [] \<and>
          (\<forall>b \<in> set bookmarks. url b = form_url formData \<longrightarrow> id_str b = i)"
  proof -
    have save: "handleSave now1 now2 bookmarks (Some i) formData = Committed ?bs"
      using assms(2) ok found by (intro handleSave_update) simp_all
    have "?bs ! n = ?new" if "n < length bookmarks" and "bookmarks ! n = old" for n
      using that assms(4) by simp
    moreover have "?bs ! n = bookmarks ! n" if "n < length bookmarks" and "bookmarks ! n \<noteq> old" for n
      using that only [of "bookmarks ! n"] by auto
    ultimately show ?thesis
      using save by (intro exI [of _ ?bs]) (simp add: newBookmark_def)
  qed
  have second: "createdAt b = createdAt old \<and> isFavorite b = isFavorite old"
    if "b \<in> set (apply_operation bookmarks (Save (Some i) formData now1 now2))"
      and "id_str b = i" for b
  proof (cases "handleSave now1 now2 bookmarks (Some i) formData")
    case (Committed bs)
    from handleSave_committed_update [OF Committed assms(2)] found
    have "bs = ?bs"
      by simp
    with that(1) Committed have "b \<in> set ?bs"
      by simp
    then obtain x where "x \<in> set bookmarks" and b: "b = (if id_str x = i then ?new else x)"
      by auto
    with that(2) have "b = ?new"
      by (cases "id_str x = i") simp_all
    then show ?thesis
      by simp
  next
    case Ignored
    with that have "b = old"
      by (intro only) simp_all
    then show ?thesis
      by simp
  next
    case DuplicateURL
    with that have "b = old"
      by (intro only) simp_all
    then show ?thesis
      by simp
  next
    case TypeError
    with that have "b = old"
      by (intro only) simp_all
    then show ?thesis
      by simp
  qed
  show ?thesis
    using first second by blast
qed

theorem update_frame_witness:
  "distinct (map id_str [bookmark_a, bookmark_c]) \<and> ''3'' \<noteq> [] \<and>
   bookmark_c \<in> set [bookmark_a, bookmark_c] \<and> id_str bookmark_c = ''3'' \<and>
   form_url form_b \<noteq> [] \<and>
   url bookmark_a \<noteq> form_url form_b \<and> url bookmark_c \<noteq> form_url form_b \<and>
   (\<exists>bs. handleSave 7 8 [bookmark_a, bookmark_c] (Some ''3'') form_b = Committed bs \<and>
      length bs = 2 \<and> bs ! 0 = bookmark_a \<and>
      createdAt (bs ! 1) = 200 \<and> isFavorite (bs ! 1) \<and> title (bs ! 1) = ''B'' \<and>
      url (bs ! 1) = ''https://b.com'')"
proof -
  have ids: "distinct (map id_str [bookmark_a, bookmark_c])"
    by (simp add: bookmark_a_def bookmark_c_def)
  have i: "''3'' \<noteq> []"
    by simp
  have old: "bookmark_c \<in> set [bookmark_a, bookmark_c]"
    by simp
  have id_old: "id_str bookmark_c = ''3''"
    by (simp add: bookmark_c_def)
  have ok: "form_url form_b \<noteq> [] \<and>
    (\<forall>b \<in> set [bookmark_a, bookmark_c]. url b = form_url form_b \<longrightarrow> id_str b = ''3'')"
    by (simp add: bookmark_a_def bookmark_c_def form_b_def blank_form_def)
  have "\<exists>bs. handleSave 7 8 [bookmark_a, bookmark_c] (Some ''3'') form_b = Committed bs \<and>
      length bs = length [bookmark_a, bookmark_c] \<and>
      (\<forall>n < length [bookmark_a, bookmark_c].
        ([bookmark_a, bookmark_c] ! n = bookmark_c \<longrightarrow>
           bs ! n =
             \<lparr>id_str = ''3'', createdAt = createdAt bookmark_c,
              url = form_url form_b, title = form_title form_b,
              description = Some (form_description form_b),
              category = form_category form_b,
              tags = tagsArray (form_tags form_b),
              notes_str = Some (form_notes form_b),
              image = form_image form_b, favicon = form_favicon form_b,
              isFavorite = isFavorite bookmark_c\<rparr>) \<and>
        ([bookmark_a, bookmark_c] ! n \<noteq> bookmark_c \<longrightarrow> bs ! n = [bookmark_a, bookmark_c] ! n))"
    using update_frame [OF ids i old id_old, of form_b 7 8] ok
    by (rule conjunct1 [THEN mp])
  then obtain bs where save: "handleSave 7 8 [bookmark_a, bookmark_c] (Some ''3'') form_b = Committed bs"
    and len: "length bs = length [bookmark_a, bookmark_c]"
    and each: "\<forall>n < length [bookmark_a, bookmark_c].
        ([bookmark_a, bookmark_c] ! n = bookmark_c \<longrightarrow>
           bs ! n =
             \<lparr>id_str = ''3'', createdAt = createdAt bookmark_c,
              url = form_url form_b, title = form_title form_b,
              description = Some (form_description form_b),
              category = form_category form_b,
              tags = tagsArray (form_tags form_b),
              notes_str = Some (form_notes form_b),
              image = form_image form_b, favicon = form_favicon form_b,
              isFavorite = isFavorite bookmark_c\<rparr>) \<and>
        ([bookmark_a, bookmark_c] ! n \<noteq> bookmark_c \<longrightarrow> bs ! n = [bookmark_a, bookmark_c] ! n)"
    by (elim exE conjE)
  have differ: "bookmark_a \<noteq> bookmark_c"
    by (simp add: bookmark_a_def bookmark_c_def)
  from each [rule_format, of 0] differ have zero: "bs ! 0 = bookmark_a"
    by simp
  from each [rule_format, of 1] have one:
    "createdAt (bs ! 1) = 200 \<and> isFavorite (bs ! 1) \<and> title (bs ! 1) = ''B'' \<and>
     url (bs ! 1) = ''https://b.com''"
    by (simp add: bookmark_c_def bookmark_a_def form_b_def blank_form_def)
  have result: "\<exists>bs. handleSave 7 8 [bookmark_a, bookmark_c] (Some ''3'') form_b = Committed bs \<and>
      length bs = 2 \<and> bs ! 0 = bookmark_a \<and>
      createdAt (bs ! 1) = 200 \<and> isFavorite (bs ! 1) \<and> title (bs ! 1) = ''B'' \<and>
      url (bs ! 1) = ''https://b.com''"
    using save len zero one by (intro exI [of _ bs]) simp
  have others: "url bookmark_a \<noteq> form_url form_b" "url bookmark_c \<noteq> form_url form_b"
    by (simp_all add: bookmark_a_def bookmark_c_def form_b_def blank_form_def)
  have url_ok: "form_url form_b \<noteq> []"
    using ok by simp
  show ?thesis
    using ids i old id_old url_ok others result by (intro conjI)
qed

text \<open>
  Counterexample to claim C3 as stated. The record with the empty string as id is in the
  collection; a save that edits it takes the branch that creates a record, so the record
  keeps all its fields and a new record with a new id and a new \<^verbatim>\<open>createdAt\<close> is put in
  front of it.
\<close>

theorem update_frame_counterexample:
  "bookmark_blank_id \<in> set [bookmark_blank_id] \<and> id_str bookmark_blank_id = [] \<and>
   handleSave 1700000000000 1700000000001 [bookmark_blank_id] (Some []) form_b =
     Committed [newBookmark ''1700000000000'' 1700000000001 False form_b, bookmark_blank_id]"
  by (simp add: eval_defs)

section \<open>Adding a bookmark\<close>

lemma insert_by_zero: "\<forall>a b. cmp a b = 0 \<Longrightarrow> insert_by cmp x ys = x # ys"
  by (cases ys) simp_all

lemma array_sort_zero: "\<forall>a b. cmp a b = 0 \<Longrightarrow> array_sort cmp xs = xs"
  by (induction xs) (simp_all add: array_sort_def insert_by_zero)

lemma identity_view:
  assumes "trim searchQuery = []" and "sortOption \<notin> {''date-desc'', ''date-asc'', ''alpha''}"
  shows "filteredBookmarks localeCompare bs ''All'' searchQuery sortOption = bs"
proof -
  have "\<forall>a b. compareFn localeCompare sortOption a b = 0"
    using assms(2) by (simp add: compareFn_def)
  then have "array_sort (compareFn localeCompare sortOption) bs = bs"
    by (rule array_sort_zero)
  with assms(1) show ?thesis
    by (simp add: filteredBookmarks_def searchFilter_def categoryFilter_def)
qed

text \<open>
  Claim C10. A save with no editing id whose draft is accepted (a non-empty url that no
  record has) commits the new record followed by the old records in their order; the new
  record carries the clock reading as \<^verbatim>\<open>createdAt\<close>. With the category \<^verbatim>\<open>All\<close>, a blank
  query and a sort option that is none of the three recognized ones, the view shows that
  stored order, the most recently created record first.
\<close>

theorem add_prepends:
  assumes "form_url formData \<noteq> []" and "form_url formData \<notin> url ` set bookmarks"
  shows "handleSave now1 now2 bookmarks None formData =
           Committed (newBookmark (toString now1) now2 False formData # bookmarks) \<and>
         createdAt (newBookmark (toString now1) now2 False formData) = now2 \<and>
         (trim searchQuery = [] \<and> sortOption \<notin> {''date-desc'', ''date-asc'', ''alpha''} \<longrightarrow>
            filteredBookmarks localeCompare
              (newBookmark (toString now1) now2 False formData # bookmarks)
              ''All'' searchQuery sortOption =
            newBookmark (toString now1) now2 False formData # bookmarks)"
proof -
  have "\<not> truthy None"
    by (simp add: truthy_def)
  moreover have "\<forall>b \<in> set bookmarks. url b = form_url formData \<longrightarrow> Some (id_str b) = None"
    using assms(2) by (metis image_eqI)
  ultimately have "handleSave now1 now2 bookmarks None formData =
           Committed (newBookmark (toString now1) now2 False formData # bookmarks)"
    using assms(1) by (intro handleSave_add)
  then show ?thesis
    using identity_view [of searchQuery sortOption localeCompare] by simp
qed

theorem add_prepends_witness:
  "form_url form_b \<noteq> [] \<and> form_url form_b \<notin> url ` set [bookmark_a] \<and>
   trim '' '' = [] \<and> ''manual'' \<notin> {''date-desc'', ''date-asc'', ''alpha''} \<and>
   handleSave 1700000000000 1700000000001 [bookmark_a] None form_b =
     Committed [newBookmark ''1700000000000'' 1700000000001 False form_b, bookmark_a] \<and>
   filteredBookmarks compare_code_units
     [newBookmark ''1700000000000'' 1700000000001 False form_b, bookmark_a]
     ''All'' '' '' ''manual'' =
     [newBookmark ''1700000000000'' 1700000000001 False form_b, bookmark_a]"
proof -
  have url_ok: "form_url form_b \<noteq> []" and fresh: "form_url form_b \<notin> url ` set [bookmark_a]"
    by (simp_all add: form_b_def blank_form_def bookmark_a_def)
  have blank: "trim '' '' = []"
    by (simp add: trim_def isWhiteSpace_def)
  have numeral: "toString 1700000000000 = ''1700000000000''"
    by (simp add: toString_def digits.simps)
  show ?thesis
    using add_prepends [OF url_ok fresh, of 1700000000000 1700000000001 "'' ''" "''manual''"
        compare_code_units]
      url_ok fresh blank
    by (simp add: numeral)
qed

section \<open>Importing a file\<close>

lemma isArray_iff: "isArray j \<longleftrightarrow> (\<exists>xs. j = JArray xs)"
  by (cases j) (simp_all add: isArray_def)

lemma importData_not_parsed:
  "JSON_parse text = None \<Longrightarrow>
     importData JSON_parse text bookmarks = (bookmarks, ''Error parsing JSON.'')"
  by (simp add: importData_def)

lemma importData_not_array:
  "JSON_parse text = Some j \<Longrightarrow> \<not> isArray j \<Longrightarrow>
     importData JSON_parse text bookmarks = (bookmarks, ''Invalid file format.'')"
  by (cases j) (simp_all add: importData_def isArray_def)

lemma importData_array:
  "JSON_parse text = Some (JArray xs) \<Longrightarrow>
     importData JSON_parse text bookmarks = (xs, ''Import successful!'')"
  by (simp add: importData_def)

text \<open>
  Claim C4. For every text of an imported file and every collection: when the text does
  not parse as JSON the collection stays as it was, the same records in the same order,
  and the alert says that parsing failed; when it parses to a value that is not an array
  the collection stays as it was and the alert says that the format is invalid. An import
  never applies in part: afterwards the collection is the one before or the whole parsed
  array.
\<close>

theorem import_failure_keeps_collection:
  "(JSON_parse text = None \<longrightarrow>
      importData JSON_parse text bookmarks = (bookmarks, ''Error parsing JSON.'')) \<and>
   (\<forall>j. JSON_parse text = Some j \<and> \<not> isArray j \<longrightarrow>
      importData JSON_parse text bookmarks = (bookmarks, ''Invalid file format.'')) \<and>
   (fst (importData JSON_parse text bookmarks) = bookmarks \<or>
    JSON_parse text = Some (JArray (fst (importData JSON_parse text bookmarks))))"
proof (intro conjI allI impI)
  show "importData JSON_parse text bookmarks = (bookmarks, ''Error parsing JSON.'')"
    if "JSON_parse text = None"
    using that by (rule importData_not_parsed)
  show "importData JSON_parse text bookmarks = (bookmarks, ''Invalid file format.'')"
    if "JSON_parse text = Some j \<and> \<not> isArray j" for j
    using that by (auto intro: importData_not_array)
  show "fst (importData JSON_parse text bookmarks) = bookmarks \<or>
    JSON_parse text = Some (JArray (fst (importData JSON_parse text bookmarks)))"
  proof (cases "JSON_parse text")
    case None
    then show ?thesis
      by (simp add: importData_not_parsed)
  next
    case (Some j)
    show ?thesis
    proof (cases "isArray j")
      case True
      then obtain xs where "j = JArray xs"
        by (auto simp: isArray_iff)
      with Some show ?thesis
        by (simp add: importData_array)
    next
      case False
      with Some show ?thesis
        by (simp add: importData_not_array)
    qed
  qed
qed

theorem import_failure_keeps_collection_witness:
  \<open>[''{"a":1}'' \<mapsto> JObject [(''a'', JNumber 1)]] ''not json'' = None \<and>
   importData [''{"a":1}'' \<mapsto> JObject [(''a'', JNumber 1)]] ''not json''
     [minimal_json ''1'' ''https://a.com'', minimal_json ''2'' ''https://b.com'',
      minimal_json ''3'' ''https://c.com''] =
     ([minimal_json ''1'' ''https://a.com'', minimal_json ''2'' ''https://b.com'',
       minimal_json ''3'' ''https://c.com''], ''Error parsing JSON.'') \<and>
   [''{"a":1}'' \<mapsto> JObject [(''a'', JNumber 1)]] ''{"a":1}'' = Some (JObject [(''a'', JNumber 1)]) \<and>
   \<not> isArray (JObject [(''a'', JNumber 1)]) \<and>
   importData [''{"a":1}'' \<mapsto> JObject [(''a'', JNumber 1)]] ''{"a":1}''
     [minimal_json ''1'' ''https://a.com'', minimal_json ''2'' ''https://b.com'',
      minimal_json ''3'' ''https://c.com''] =
     ([minimal_json ''1'' ''https://a.com'', minimal_json ''2'' ''https://b.com'',
       minimal_json ''3'' ''https://c.com''], ''Invalid file format.'')\<close>
  using import_failure_keeps_collection
      [of \<open>[''{"a":1}'' \<mapsto> JObject [(''a'', JNumber 1)]]\<close> \<open>''not json''\<close>
          "[minimal_json ''1'' ''https://a.com'', minimal_json ''2'' ''https://b.com'',
            minimal_json ''3'' ''https://c.com'']"]
    import_failure_keeps_collection
      [of \<open>[''{"a":1}'' \<mapsto> JObject [(''a'', JNumber 1)]]\<close> \<open>''{"a":1}''\<close>
          "[minimal_json ''1'' ''https://a.com'', minimal_json ''2'' ''https://b.com'',
            minimal_json ''3'' ''https://c.com'']"]
  by (simp add: isArray_def)

text \<open>
  Claim C5, amended. The import succeeds exactly when the file parses to an array, whatever
  the elements of the array are, and the collection is then that array in place of the
  former records; a parsed value that is not an array is refused as an invalid format and
  the collection is kept.
\<close>

theorem import_accepts_exactly_arrays:
  "(snd (importData JSON_parse text bookmarks) = ''Import successful!'' \<longleftrightarrow>
      (\<exists>xs. JSON_parse text = Some (JArray xs))) \<and>
   (\<forall>xs. JSON_parse text = Some (JArray xs) \<longrightarrow>
      importData JSON_parse text bookmarks = (xs, ''Import successful!'')) \<and>
   (\<forall>j. JSON_parse text = Some j \<and> \<not> isArray j \<longrightarrow>
      importData JSON_parse text bookmarks = (bookmarks, ''Invalid file format.''))"
proof (intro conjI allI impI)
  show "snd (importData JSON_parse text bookmarks) = ''Import successful!'' \<longleftrightarrow>
      (\<exists>xs. JSON_parse text = Some (JArray xs))"
  proof (cases "JSON_parse text")
    case None
    then show ?thesis
      by (simp add: importData_not_parsed)
  next
    case (Some j)
    then show ?thesis
      by (cases j) (simp_all add: importData_def)
  qed
  show "importData JSON_parse text bookmarks = (xs, ''Import successful!'')"
    if "JSON_parse text = Some (JArray xs)" for xs
    using that by (rule importData_array)
  show "importData JSON_parse text bookmarks = (bookmarks, ''Invalid file format.'')"
    if "JSON_parse text = Some j \<and> \<not> isArray j" for j
    using that by (auto intro: importData_not_array)
qed

theorem import_accepts_exactly_arrays_witness:
  \<open>[''[]'' \<mapsto> JArray [], ''7'' \<mapsto> JNumber 7] ''[]'' = Some (JArray []) \<and>
   importData [''[]'' \<mapsto> JArray [], ''7'' \<mapsto> JNumber 7] ''[]'' [minimal_json ''1'' ''https://a.com''] =
     ([], ''Import successful!'') \<and>
   [''[]'' \<mapsto> JArray [], ''7'' \<mapsto> JNumber 7] ''7'' = Some (JNumber 7) \<and> \<not> isArray (JNumber 7) \<and>
   importData [''[]'' \<mapsto> JArray [], ''7'' \<mapsto> JNumber 7] ''7'' [minimal_json ''1'' ''https://a.com''] =
     ([minimal_json ''1'' ''https://a.com''], ''Invalid file format.'')\<close>
  using import_accepts_exactly_arrays
      [of \<open>[''[]'' \<mapsto> JArray [], ''7'' \<mapsto> JNumber 7]\<close> \<open>''[]''\<close> "[minimal_json ''1'' ''https://a.com'']"]
    import_accepts_exactly_arrays
      [of \<open>[''[]'' \<mapsto> JArray [], ''7'' \<mapsto> JNumber 7]\<close> \<open>''7''\<close> "[minimal_json ''1'' ''https://a.com'']"]
  by (simp add: isArray_def)

text \<open>
  Counterexample to claim C5 as stated. The array \<^verbatim>\<open>[1]\<close> holds a number and no object of
  the minimal bookmark shape, and the import succeeds and makes it the collection.
\<close>

theorem import_accepts_exactly_arrays_counterexample:
  "\<not> list_all minimal_bookmark_shape [JNumber 1] \<and>
   importData [''[1]'' \<mapsto> JArray [JNumber 1]] ''[1]'' [minimal_json ''1'' ''https://a.com''] =
     ([JNumber 1], ''Import successful!'')"
  by (simp add: importData_def minimal_bookmark_shape_def)

section \<open>The view does not write to the collection\<close>

lemma array_sort_map:
  "map f (array_sort (\<lambda>x y. cmp (f x) (f y)) xs) = array_sort cmp (map f xs)"
proof -
  have ins: "map f (insert_by (\<lambda>x y. cmp (f x) (f y)) x ys) = insert_by cmp (f x) (map f ys)"
    for x ys
    by (induction ys) simp_all
  show ?thesis
    by (induction xs) (simp_all add: array_sort_def ins)
qed

lemma spread_copy_hands_on:
  assumes "a < next_free s0" and "spread_copy a s0 = (r, s)"
  shows "hands_on s0 r s (contents s0 a)"
  using assms by (auto simp: spread_copy_def new_array_def hands_on_def contents_def)

lemma array_filter_hands_on:
  assumes "hands_on s0 r s xs" and "array_filter p r s = (r', s')"
  shows "hands_on s0 r' s' (filter p xs)"
  using assms
  by (auto simp: array_filter_def new_array_def hands_on_def contents_def filter_map o_def)

lemma array_sort_in_place_hands_on:
  assumes "hands_on s0 r s xs"
  shows "hands_on s0 r (array_sort_in_place cmp r s) (array_sort cmp xs)"
  using assms
  by (auto simp: array_sort_in_place_def hands_on_def contents_def array_sort_map)

lemma filteredBookmarks_store_hands_on:
  assumes "bookmarks < next_free s"
    and "filteredBookmarks_store localeCompare bookmarks activeCategory searchQuery sortOption s
           = (result, s')"
  shows "hands_on s result s'
           (filteredBookmarks localeCompare (contents s bookmarks) activeCategory searchQuery sortOption)"
proof -
  obtain r1 s1 where copy: "spread_copy bookmarks s = (r1, s1)"
    by (cases "spread_copy bookmarks s")
  have h1: "hands_on s r1 s1 (contents s bookmarks)"
    using assms(1) copy by (rule spread_copy_hands_on)
  obtain r2 s2 where cat:
    "(if activeCategory = ''Favorites'' then array_filter isFavorite r1 s1
      else if activeCategory \<noteq> ''All'' then
        array_filter (\<lambda>b. category b = activeCategory) r1 s1
      else (r1, s1)) = (r2, s2)"
    by (cases "(if activeCategory = ''Favorites'' then array_filter isFavorite r1 s1
      else if activeCategory \<noteq> ''All'' then
        array_filter (\<lambda>b. category b = activeCategory) r1 s1
      else (r1, s1))")
  have h2: "hands_on s r2 s2 (categoryFilter activeCategory (contents s bookmarks))"
    using cat h1 by (auto simp: categoryFilter_def dest: array_filter_hands_on split: if_splits)
  obtain r3 s3 where search:
    "(if trim searchQuery \<noteq> [] then array_filter (matches (toLowerCase searchQuery)) r2 s2
      else (r2, s2)) = (r3, s3)"
    by (cases "(if trim searchQuery \<noteq> [] then array_filter (matches (toLowerCase searchQuery)) r2 s2
      else (r2, s2))")
  have h3: "hands_on s r3 s3
      (searchFilter searchQuery (categoryFilter activeCategory (contents s bookmarks)))"
    using search h2 by (auto simp: searchFilter_def dest: array_filter_hands_on split: if_splits)
  have "filteredBookmarks_store localeCompare bookmarks activeCategory searchQuery sortOption s =
          (r3, array_sort_in_place (compareFn localeCompare sortOption) r3 s3)"
    using copy cat search by (auto simp: filteredBookmarks_store_def Let_def split: if_splits)
  with assms(2) have "result = r3"
    and "s' = array_sort_in_place (compareFn localeCompare sortOption) r3 s3"
    by auto
  with h3 show ?thesis
    by (simp add: filteredBookmarks_def array_sort_in_place_hands_on)
qed


text \<open>
  Claim C8. Evaluating the view on the array \<open>bookmarks\<close> of a store leaves every object
  and every array that existed before as it was, the array \<open>bookmarks\<close> among them; the
  array it returns is a new one. The records of the returned array, in order, are a
  function of the records of \<open>bookmarks\<close>, the category, the query and the sort option
  alone: a run on any other store whose array holds the same records returns the same
  records in the same order.
\<close>

theorem view_is_pure:
  assumes "bookmarks < next_free s"
  shows "objects (snd (filteredBookmarks_store lc bookmarks cat q opt s)) = objects s \<and>
         (\<forall>a < next_free s.
            arrays (snd (filteredBookmarks_store lc bookmarks cat q opt s)) a = arrays s a) \<and>
         contents (snd (filteredBookmarks_store lc bookmarks cat q opt s)) bookmarks =
           contents s bookmarks \<and>
         fst (filteredBookmarks_store lc bookmarks cat q opt s) \<noteq> bookmarks \<and>
         contents (snd (filteredBookmarks_store lc bookmarks cat q opt s))
                  (fst (filteredBookmarks_store lc bookmarks cat q opt s)) =
           filteredBookmarks lc (contents s bookmarks) cat q opt \<and>
         (\<forall>s2 bookmarks2.
            bookmarks2 < next_free s2 \<and> contents s2 bookmarks2 = contents s bookmarks \<longrightarrow>
            contents (snd (filteredBookmarks_store lc bookmarks2 cat q opt s2))
                     (fst (filteredBookmarks_store lc bookmarks2 cat q opt s2)) =
            contents (snd (filteredBookmarks_store lc bookmarks cat q opt s))
                     (fst (filteredBookmarks_store lc bookmarks cat q opt s)))"
proof -
  let ?run = "filteredBookmarks_store lc bookmarks cat q opt s"
  have h: "hands_on s (fst ?run) (snd ?run) (filteredBookmarks lc (contents s bookmarks) cat q opt)"
    using assms by (intro filteredBookmarks_store_hands_on) simp_all
  then have objects: "objects (snd ?run) = objects s"
    and arrays: "\<forall>a < next_free s. arrays (snd ?run) a = arrays s a"
    and fresh: "next_free s \<le> fst ?run"
    and out: "contents (snd ?run) (fst ?run) = filteredBookmarks lc (contents s bookmarks) cat q opt"
    by (simp_all add: hands_on_def)
  have same: "contents (snd ?run) bookmarks = contents s bookmarks"
    using objects arrays assms by (simp add: contents_def)
  have other: "fst ?run \<noteq> bookmarks"
    using fresh assms by simp
  have again: "contents (snd (filteredBookmarks_store lc bookmarks2 cat q opt s2))
                     (fst (filteredBookmarks_store lc bookmarks2 cat q opt s2)) =
               contents (snd ?run) (fst ?run)"
    if "bookmarks2 < next_free s2 \<and> contents s2 bookmarks2 = contents s bookmarks"
    for s2 bookmarks2
  proof -
    have "hands_on s2 (fst (filteredBookmarks_store lc bookmarks2 cat q opt s2))
            (snd (filteredBookmarks_store lc bookmarks2 cat q opt s2))
            (filteredBookmarks lc (contents s2 bookmarks2) cat q opt)"
      using that by (intro filteredBookmarks_store_hands_on) simp_all
    with that out show ?thesis
      by (simp add: hands_on_def)
  qed
  show ?thesis
    using objects arrays same other out again by blast
qed

theorem view_is_pure_witness:
  "(0::nat) < next_free example_store \<and>
   (2::nat) < next_free example_store_b \<and>
   contents example_store_b 2 = contents example_store 0 \<and>
   contents example_store 0 = [bookmark_a, bookmark_devtools, bookmark_c] \<and>
   arrays (snd (filteredBookmarks_store compare_code_units 0 ''All'' [] ''date-desc'' example_store)) 0 =
     [0, 1, 2] \<and>
   contents (snd (filteredBookmarks_store compare_code_units 0 ''All'' [] ''date-desc'' example_store)) 0 =
     [bookmark_a, bookmark_devtools, bookmark_c] \<and>
   fst (filteredBookmarks_store compare_code_units 0 ''All'' [] ''date-desc'' example_store) \<noteq> 0 \<and>
   contents (snd (filteredBookmarks_store compare_code_units 0 ''All'' [] ''date-desc'' example_store))
            (fst (filteredBookmarks_store compare_code_units 0 ''All'' [] ''date-desc'' example_store)) =
     [bookmark_devtools, bookmark_c, bookmark_a] \<and>
   contents (snd (filteredBookmarks_store compare_code_units 2 ''All'' [] ''date-desc'' example_store_b))
            (fst (filteredBookmarks_store compare_code_units 2 ''All'' [] ''date-desc'' example_store_b)) =
     [bookmark_devtools, bookmark_c, bookmark_a]"
proof -
  have alloc: "(0::nat) < next_free example_store"
    by (simp add: example_store_def)
  have alloc_b: "(2::nat) < next_free example_store_b"
    by (simp add: example_store_b_def)
  have src: "contents example_store 0 = [bookmark_a, bookmark_devtools, bookmark_c]"
    by (simp add: contents_def example_store_def)
  have src_b: "contents example_store_b 2 = [bookmark_a, bookmark_devtools, bookmark_c]"
    by (simp add: contents_def example_store_b_def)
  have arr: "arrays example_store 0 = [0, 1, 2]"
    by (simp add: example_store_def)
  have view: "filteredBookmarks compare_code_units [bookmark_a, bookmark_devtools, bookmark_c]
                ''All'' [] ''date-desc'' = [bookmark_devtools, bookmark_c, bookmark_a]"
    by code_simp
  note pure = view_is_pure [OF alloc, of compare_code_units "''All''" "[]" "''date-desc''"]
  from pure alloc have kept: "arrays (snd (filteredBookmarks_store compare_code_units 0 ''All'' []
      ''date-desc'' example_store)) 0 = arrays example_store 0"
    by blast
  from pure alloc_b src src_b have other:
    "contents (snd (filteredBookmarks_store compare_code_units 2 ''All'' [] ''date-desc'' example_store_b))
            (fst (filteredBookmarks_store compare_code_units 2 ''All'' [] ''date-desc'' example_store_b)) =
     contents (snd (filteredBookmarks_store compare_code_units 0 ''All'' [] ''date-desc'' example_store))
            (fst (filteredBookmarks_store compare_code_units 0 ''All'' [] ''date-desc'' example_store))"
    by presburger
  show ?thesis
    using pure alloc alloc_b src src_b kept other
    by (simp only: arr view) simp
qed

section \<open>Enrichment when the lookup fails\<close>

lemma fetchMetadata_request_Await_iff:
  "fetchMetadata_request bookmarks editingId rawUrl = Await v \<longleftrightarrow>
     rawUrl \<noteq> [] \<and>
     (\<forall>b \<in> set bookmarks. url b = rawUrl \<longrightarrow> Some (id_str b) = editingId) \<and>
     v = validUrl rawUrl"
  by (auto simp: fetchMetadata_request_def find_None_iff)

lemma validUrl_cases:
  "((\<exists>rest. toLowerCase rawUrl = ''http://'' @ rest) \<or>
    (\<exists>rest. toLowerCase rawUrl = ''https://'' @ rest) \<longrightarrow> validUrl rawUrl = rawUrl) \<and>
   (\<not> (\<exists>rest. toLowerCase rawUrl = ''http://'' @ rest) \<and>
    \<not> (\<exists>rest. toLowerCase rawUrl = ''https://'' @ rest) \<longrightarrow>
      validUrl rawUrl = ''https://'' @ rawUrl)"
  unfolding validUrl_def hasScheme_def prefix_def by auto

lemma fetchMetadata_response_not_early:
  "fetchMetadata_response hostname v response prev \<noteq> Skipped \<and>
   fetchMetadata_response hostname v response prev \<noteq> AlreadySaved"
  by (cases response) (auto simp: fetchMetadata_response_def Let_def split: option.splits)

lemma fetchMetadata_Skipped_iff:
  "fetchMetadata hostname lookup bookmarks editingId prev rawUrl = Skipped \<longleftrightarrow> rawUrl = []"
  using fetchMetadata_response_not_early [of hostname "validUrl rawUrl" "lookup (validUrl rawUrl)" prev]
  by (auto simp: fetchMetadata_def fetchMetadata_request_def)

lemma fetchMetadata_AlreadySaved_iff:
  "fetchMetadata hostname lookup bookmarks editingId prev rawUrl = AlreadySaved \<longleftrightarrow>
     rawUrl \<noteq> [] \<and>
     (\<exists>b \<in> set bookmarks. url b = rawUrl \<and> Some (id_str b) \<noteq> editingId)"
  using fetchMetadata_response_not_early [of hostname "validUrl rawUrl" "lookup (validUrl rawUrl)" prev]
  by (auto simp: fetchMetadata_def fetchMetadata_request_def find_None_iff)

text \<open>
  Claim C9, amended. \<^verbatim>\<open>fetchMetadata\<close> returns at once exactly when the url as typed is
  empty, and it reports the url as already saved exactly when the url as typed is not empty
  and a record with another id has it as typed: this check reads the url before it is
  normalized. It asks the lookup service exactly when the url as typed is not empty and no
  record with another id has it, and it asks for the url with \<^verbatim>\<open>https://\<close> put in front
  when the url does not start with \<^verbatim>\<open>http://\<close> or \<^verbatim>\<open>https://\<close> in any letter case, and
  for the url itself otherwise. When the lookup fails and the normalized url parses, the
  form receives the normalized url, the title of the draft or else the host name, and the
  favicon address of the by-domain convention, and the failure is only logged. When the
  lookup fails and the normalized url does not parse, the invalid-url error is set and the
  form receives nothing.
\<close>

theorem enrich_on_failure:
  "(fetchMetadata hostname lookup bookmarks editingId prev rawUrl = Skipped \<longleftrightarrow> rawUrl = []) \<and>
   (fetchMetadata hostname lookup bookmarks editingId prev rawUrl = AlreadySaved \<longleftrightarrow>
      rawUrl \<noteq> [] \<and>
      (\<exists>b \<in> set bookmarks. url b = rawUrl \<and> Some (id_str b) \<noteq> editingId)) \<and>
   (fetchMetadata_request bookmarks editingId rawUrl = Await v \<longleftrightarrow>
      rawUrl \<noteq> [] \<and>
      (\<forall>b \<in> set bookmarks. url b = rawUrl \<longrightarrow> Some (id_str b) = editingId) \<and>
      v = validUrl rawUrl) \<and>
   ((\<exists>rest. toLowerCase rawUrl = ''http://'' @ rest) \<or>
    (\<exists>rest. toLowerCase rawUrl = ''https://'' @ rest) \<longrightarrow> validUrl rawUrl = rawUrl) \<and>
   (\<not> (\<exists>rest. toLowerCase rawUrl = ''http://'' @ rest) \<and>
    \<not> (\<exists>rest. toLowerCase rawUrl = ''https://'' @ rest) \<longrightarrow>
      validUrl rawUrl = ''https://'' @ rawUrl) \<and>
   (fetchMetadata_request bookmarks editingId rawUrl = Await v \<and> lookup v = LookupFailed \<longrightarrow>
      (\<forall>h. hostname v = Some h \<longrightarrow>
         fetchMetadata hostname lookup bookmarks editingId prev rawUrl =
           Degraded (prev\<lparr>form_url := v,
                          form_title := (if form_title prev \<noteq> [] then form_title prev else h),
                          form_favicon :=
                            Some (''https://www.google.com/s2/favicons?domain='' @ v @ ''&sz=64'')\<rparr>)) \<and>
      (hostname v = None \<longrightarrow>
         fetchMetadata hostname lookup bookmarks editingId prev rawUrl = InvalidURL))"
proof -
  have failed: "(\<forall>h. hostname v = Some h \<longrightarrow>
         fetchMetadata hostname lookup bookmarks editingId prev rawUrl =
           Degraded (prev\<lparr>form_url := v,
                          form_title := (if form_title prev \<noteq> [] then form_title prev else h),
                          form_favicon :=
                            Some (''https://www.google.com/s2/favicons?domain='' @ v @ ''&sz=64'')\<rparr>)) \<and>
      (hostname v = None \<longrightarrow>
         fetchMetadata hostname lookup bookmarks editingId prev rawUrl = InvalidURL)"
    if "fetchMetadata_request bookmarks editingId rawUrl = Await v \<and> lookup v = LookupFailed"
    using that by (simp add: fetchMetadata_def fetchMetadata_response_def faviconFor_def)
  show ?thesis
    using fetchMetadata_Skipped_iff [of hostname lookup bookmarks editingId prev rawUrl]
      fetchMetadata_AlreadySaved_iff [of hostname lookup bookmarks editingId prev rawUrl]
      fetchMetadata_request_Await_iff [of bookmarks editingId rawUrl v]
      validUrl_cases [of rawUrl] failed
    by blast
qed

theorem enrich_on_failure_witness:
  "fetchMetadata hostname_example lookup_down [bookmark_a] None blank_form [] = Skipped \<and>
   url bookmark_bare = ''a.com'' \<and> Some (id_str bookmark_bare) \<noteq> None \<and>
   fetchMetadata hostname_example lookup_down [bookmark_bare] None blank_form ''a.com'' =
     AlreadySaved \<and>
   fetchMetadata_request [bookmark_a] None ''b.com'' = Await ''https://b.com'' \<and>
   lookup_down ''https://b.com'' = LookupFailed \<and>
   hostname_example ''https://b.com'' = Some ''b.com'' \<and>
   fetchMetadata hostname_example lookup_down [bookmark_a] None blank_form ''b.com'' =
     Degraded (blank_form\<lparr>form_url := ''https://b.com'', form_title := ''b.com'',
       form_favicon := Some ''https://www.google.com/s2/favicons?domain=https://b.com&sz=64''\<rparr>) \<and>
   fetchMetadata_request [bookmark_a] None ''a b'' = Await ''https://a b'' \<and>
   hostname_example ''https://a b'' = None \<and>
   fetchMetadata hostname_example lookup_down [bookmark_a] None blank_form ''a b'' = InvalidURL"
proof -
  have v1: "validUrl ''b.com'' = ''https://b.com''" and v2: "validUrl ''a b'' = ''https://a b''"
    by (simp_all add: validUrl_def hasScheme_def toLowerCase_def toLowerCase_char_def
        latin1_upper_def latin1_lower_def)
  have urls: "url bookmark_a = ''https://a.com''" "url bookmark_bare = ''a.com''"
    by (simp_all add: bookmark_a_def bookmark_bare_def)
  have title: "form_title blank_form = []"
    by (simp add: blank_form_def)
  show ?thesis
    using enrich_on_failure [of hostname_example lookup_down "[bookmark_a]" None blank_form "[]"]
      enrich_on_failure [of hostname_example lookup_down "[bookmark_bare]" None blank_form
        "''a.com''"]
      enrich_on_failure [of hostname_example lookup_down "[bookmark_a]" None blank_form
        "''b.com''" "''https://b.com''"]
      enrich_on_failure [of hostname_example lookup_down "[bookmark_a]" None blank_form
        "''a b''" "''https://a b''"]
    by (simp add: v1 v2 urls title lookup_down_def hostname_example_def)
qed

text \<open>
  Counterexample to claim C9 as stated. The check for a saved url comes before the
  normalization and reads the url as typed: \<^verbatim>\<open>a.com\<close> is reported as saved although no
  record has its normalized form, and nothing is looked up. And a lookup that succeeds for
  a url that does not parse fills the form; the invalid-url error belongs to the failure
  branch alone.
\<close>

theorem enrich_on_failure_counterexample:
  "validUrl ''a.com'' = ''https://a.com'' \<and> url bookmark_bare \<noteq> ''https://a.com'' \<and>
   fetchMetadata_request [bookmark_bare] None ''a.com'' = Done AlreadySaved \<and>
   fetchMetadata_request [bookmark_a] None ''a b'' = Await ''https://a b'' \<and>
   hostname_example ''https://a b'' = None \<and>
   fetchMetadata_response hostname_example ''https://a b''
       (LookupSuccess (Some ''T'') None None None) blank_form =
     Enriched (blank_form\<lparr>form_url := ''https://a b'', form_title := ''T'',
       form_favicon := Some ''https://www.google.com/s2/favicons?domain=https://a b&sz=64''\<rparr>)"
  by (simp add: eval_defs fetchMetadata_request_def fetchMetadata_response_def faviconFor_def
      bookmark_bare_def hostname_example_def)

section \<open>The duplicate check\<close>

lemma fetchMetadata_writes:
  assumes "rawUrl \<noteq> []"
    and "\<forall>b \<in> set bookmarks. url b = rawUrl \<longrightarrow> Some (id_str b) = editingId"
    and "hostname (validUrl rawUrl) \<noteq> None \<or>
         (\<exists>t d i l. lookup (validUrl rawUrl) = LookupSuccess t d i l \<and>
                    (truthy t \<or> form_title prev \<noteq> []))"
  shows "\<exists>f. (fetchMetadata hostname lookup bookmarks editingId prev rawUrl = Enriched f \<or>
              fetchMetadata hostname lookup bookmarks editingId prev rawUrl = Degraded f) \<and>
             form_url f = validUrl rawUrl"
proof -
  have run: "fetchMetadata hostname lookup bookmarks editingId prev rawUrl =
      fetchMetadata_response hostname (validUrl rawUrl) (lookup (validUrl rawUrl)) prev"
    using assms(1,2) by (simp add: fetchMetadata_def fetchMetadata_request_def find_None_iff)
  show ?thesis
  proof (cases "lookup (validUrl rawUrl)")
    case LookupFailed
    with assms(3) obtain h where "hostname (validUrl rawUrl) = Some h"
      by auto
    with LookupFailed show ?thesis
      unfolding run by (simp add: fetchMetadata_response_def)
  next
    case (LookupSuccess t d i l)
    with assms(3) show ?thesis
      unfolding run by (auto simp: fetchMetadata_response_def Let_def)
  qed
qed

lemma fetchMetadata_leaves:
  assumes "rawUrl \<noteq> []"
    and "\<forall>b \<in> set bookmarks. url b = rawUrl \<longrightarrow> Some (id_str b) = editingId"
    and "\<not> (hostname (validUrl rawUrl) \<noteq> None \<or>
         (\<exists>t d i l. lookup (validUrl rawUrl) = LookupSuccess t d i l \<and>
                    (truthy t \<or> form_title prev \<noteq> [])))"
  shows "fetchMetadata hostname lookup bookmarks editingId prev rawUrl = InvalidURL \<or>
         fetchMetadata hostname lookup bookmarks editingId prev rawUrl = UpdaterThrew"
proof -
  have run: "fetchMetadata hostname lookup bookmarks editingId prev rawUrl =
      fetchMetadata_response hostname (validUrl rawUrl) (lookup (validUrl rawUrl)) prev"
    using assms(1,2) by (simp add: fetchMetadata_def fetchMetadata_request_def find_None_iff)
  show ?thesis
    using assms(3) unfolding run
    by (cases "lookup (validUrl rawUrl)") (auto simp: fetchMetadata_response_def Let_def)
qed

lemma validUrl_nonempty: "rawUrl \<noteq> [] \<Longrightarrow> validUrl rawUrl \<noteq> []"
  by (simp add: validUrl_def)

lemma blur_then_save_duplicate_iff:
  "blur_then_save hostname lookup now1 now2 bookmarks typed = DuplicateURL \<longleftrightarrow>
     form_url typed \<noteq> [] \<and>
     ((\<exists>b \<in> set bookmarks. url b = form_url typed) \<or>
      (hostname (validUrl (form_url typed)) \<noteq> None \<or>
       (\<exists>t d i l. lookup (validUrl (form_url typed)) = LookupSuccess t d i l \<and>
                  (truthy t \<or> form_title typed \<noteq> []))) \<and>
      (\<exists>b \<in> set bookmarks. url b = validUrl (form_url typed)))"
proof (cases "form_url typed = []")
  case True
  then have "fetchMetadata hostname lookup bookmarks None typed (form_url typed) = Skipped"
    by (simp add: fetchMetadata_Skipped_iff)
  with True show ?thesis
    by (simp add: blur_then_save_def)
next
  case url: False
  show ?thesis
  proof (cases "\<exists>b \<in> set bookmarks. url b = form_url typed")
    case True
    then have "fetchMetadata hostname lookup bookmarks None typed (form_url typed) = AlreadySaved"
      using url by (simp add: fetchMetadata_AlreadySaved_iff)
    with True url show ?thesis
      by (simp add: blur_then_save_def)
  next
    case fresh: False
    then have none: "\<forall>b \<in> set bookmarks. url b = form_url typed \<longrightarrow> Some (id_str b) = None"
      by blast
    show ?thesis
    proof (cases "hostname (validUrl (form_url typed)) \<noteq> None \<or>
       (\<exists>t d i l. lookup (validUrl (form_url typed)) = LookupSuccess t d i l \<and>
                  (truthy t \<or> form_title typed \<noteq> []))")
      case True
      from fetchMetadata_writes [where hostname = hostname and lookup = lookup and prev = typed,
          OF url none True] obtain f where
        f: "fetchMetadata hostname lookup bookmarks None typed (form_url typed) = Enriched f \<or>
            fetchMetadata hostname lookup bookmarks None typed (form_url typed) = Degraded f"
        and v: "form_url f = validUrl (form_url typed)"
        by blast
      from f have "blur_then_save hostname lookup now1 now2 bookmarks typed =
          handleSave now1 now2 bookmarks None f"
        by (auto simp: blur_then_save_def)
      with True fresh url v show ?thesis
        by (simp add: handleSave_duplicate_iff validUrl_nonempty)
    next
      case False
      from fetchMetadata_leaves [where hostname = hostname and lookup = lookup and prev = typed,
          OF url none False]
      have "blur_then_save hostname lookup now1 now2 bookmarks typed =
              handleSave now1 now2 bookmarks None typed \<or>
            blur_then_save hostname lookup now1 now2 bookmarks typed = TypeError"
        by (auto simp: blur_then_save_def)
      then have "blur_then_save hostname lookup now1 now2 bookmarks typed \<noteq> DuplicateURL"
        using fresh by (auto simp: handleSave_duplicate_iff)
      with False fresh show ?thesis
        by blast
    qed
  qed
qed

lemma blur_then_save_normalized:
  assumes "hostname (validUrl (form_url typed)) \<noteq> None" and "form_url typed \<noteq> []"
    and "(\<exists>b \<in> set bookmarks. url b = form_url typed) \<longrightarrow> hasScheme (form_url typed)"
  shows "blur_then_save hostname lookup now1 now2 bookmarks typed = DuplicateURL \<longleftrightarrow>
           (\<exists>b \<in> set bookmarks. url b = validUrl (form_url typed))"
proof -
  have "\<exists>b \<in> set bookmarks. url b = validUrl (form_url typed)"
    if "\<exists>b \<in> set bookmarks. url b = form_url typed"
    using that assms(3) by (simp add: validUrl_def)
  with assms(1,2) show ?thesis
    unfolding blur_then_save_duplicate_iff by blast
qed

text \<open>
  Claim C2, amended. Adding through the form, that is leaving the url field and then
  saving, fails with \<open>DuplicateURL\<close> exactly when the url as typed is not empty and either
  some record has the url as typed, or the enrichment has written the normalized url into
  the form and some record has the normalized url; the enrichment writes it when the
  normalized url parses, or when the lookup succeeds and it or the draft supplies a title.
  So when the normalized url parses, the url as typed is not empty, and a record can have
  the url as typed only if it carries a scheme, adding fails with \<open>DuplicateURL\<close> exactly
  when some record's url equals the draft's normalized url. \<^verbatim>\<open>handleSave\<close> itself compares
  the url that the form holds and does not normalize it: with no editing id it fails with
  \<open>DuplicateURL\<close> exactly when that url is not empty and some record has it, and when it
  edits \<open>i\<close> exactly when that url is not empty and a record with an id other than \<open>i\<close>
  has it. A save that edits a record of the collection with a non-empty url that only this
  record has is accepted and commits.
\<close>

theorem duplicate_url_check:
  "(blur_then_save hostname lookup now1 now2 bookmarks typed = DuplicateURL \<longleftrightarrow>
      form_url typed \<noteq> [] \<and>
      ((\<exists>b \<in> set bookmarks. url b = form_url typed) \<or>
       (hostname (validUrl (form_url typed)) \<noteq> None \<or>
        (\<exists>t d i l. lookup (validUrl (form_url typed)) = LookupSuccess t d i l \<and>
                   (truthy t \<or> form_title typed \<noteq> []))) \<and>
       (\<exists>b \<in> set bookmarks. url b = validUrl (form_url typed)))) \<and>
   (hostname (validUrl (form_url typed)) \<noteq> None \<and> form_url typed \<noteq> [] \<and>
    ((\<exists>b \<in> set bookmarks. url b = form_url typed) \<longrightarrow> hasScheme (form_url typed)) \<longrightarrow>
      (blur_then_save hostname lookup now1 now2 bookmarks typed = DuplicateURL \<longleftrightarrow>
         (\<exists>b \<in> set bookmarks. url b = validUrl (form_url typed)))) \<and>
   (handleSave now1 now2 bookmarks None formData = DuplicateURL \<longleftrightarrow>
      form_url formData \<noteq> [] \<and> (\<exists>b \<in> set bookmarks. url b = form_url formData)) \<and>
   (handleSave now1 now2 bookmarks (Some i) formData = DuplicateURL \<longleftrightarrow>
      form_url formData \<noteq> [] \<and>
      (\<exists>b \<in> set bookmarks. url b = form_url formData \<and> id_str b \<noteq> i)) \<and>
   (form_url formData \<noteq> [] \<and> (\<exists>b \<in> set bookmarks. id_str b = i) \<and>
    (\<forall>b \<in> set bookmarks. url b = form_url formData \<longrightarrow> id_str b = i) \<longrightarrow>
      (\<exists>bs. handleSave now1 now2 bookmarks (Some i) formData = Committed bs))"
proof (intro conjI impI)
  show "blur_then_save hostname lookup now1 now2 bookmarks typed = DuplicateURL \<longleftrightarrow>
      form_url typed \<noteq> [] \<and>
      ((\<exists>b \<in> set bookmarks. url b = form_url typed) \<or>
       (hostname (validUrl (form_url typed)) \<noteq> None \<or>
        (\<exists>t d i l. lookup (validUrl (form_url typed)) = LookupSuccess t d i l \<and>
                   (truthy t \<or> form_title typed \<noteq> []))) \<and>
       (\<exists>b \<in> set bookmarks. url b = validUrl (form_url typed)))"
    by (rule blur_then_save_duplicate_iff)
  show "blur_then_save hostname lookup now1 now2 bookmarks typed = DuplicateURL \<longleftrightarrow>
         (\<exists>b \<in> set bookmarks. url b = validUrl (form_url typed))"
    if "hostname (validUrl (form_url typed)) \<noteq> None \<and> form_url typed \<noteq> [] \<and>
        ((\<exists>b \<in> set bookmarks. url b = form_url typed) \<longrightarrow> hasScheme (form_url typed))"
    using that by (intro blur_then_save_normalized) simp_all
  show "handleSave now1 now2 bookmarks None formData = DuplicateURL \<longleftrightarrow>
      form_url formData \<noteq> [] \<and> (\<exists>b \<in> set bookmarks. url b = form_url formData)"
    by (simp add: handleSave_duplicate_iff)
  show "handleSave now1 now2 bookmarks (Some i) formData = DuplicateURL \<longleftrightarrow>
      form_url formData \<noteq> [] \<and>
      (\<exists>b \<in> set bookmarks. url b = form_url formData \<and> id_str b \<noteq> i)"
    by (simp add: handleSave_duplicate_iff)
next
  assume own: "form_url formData \<noteq> [] \<and> (\<exists>b \<in> set bookmarks. id_str b = i) \<and>
    (\<forall>b \<in> set bookmarks. url b = form_url formData \<longrightarrow> id_str b = i)"
  show "\<exists>bs. handleSave now1 now2 bookmarks (Some i) formData = Committed bs"
  proof (cases "i = []")
    case True
    then have "\<not> truthy (Some i)"
      by (simp add: truthy_def)
    moreover have "\<forall>b \<in> set bookmarks. url b = form_url formData \<longrightarrow> Some (id_str b) = Some i"
      using own by simp
    ultimately have "handleSave now1 now2 bookmarks (Some i) formData =
        Committed (newBookmark (toString now1) now2 False formData # bookmarks)"
      using own by (intro handleSave_add) simp_all
    then show ?thesis
      by blast
  next
    case False
    from own obtain found where "List.find (\<lambda>b. id_str b = i) bookmarks = Some found"
      using find_some_id by blast
    with own False have "handleSave now1 now2 bookmarks (Some i) formData =
        Committed (map (\<lambda>b. if id_str b = i
                               then newBookmark i (createdAt found) (isFavorite found) formData
                               else b) bookmarks)"
      by (intro handleSave_update) simp_all
    then show ?thesis
      by blast
  qed
qed

theorem duplicate_url_check_witness:
  "hostname_example (validUrl (form_url form_bare)) \<noteq> None \<and> form_url form_bare \<noteq> [] \<and>
   url bookmark_a \<noteq> form_url form_bare \<and> url bookmark_a = validUrl (form_url form_bare) \<and>
   blur_then_save hostname_example lookup_down 7 7 [bookmark_a] form_bare = DuplicateURL \<and>
   blur_then_save hostname_example lookup_down 7 7 [bookmark_a] form_b \<noteq> DuplicateURL \<and>
   form_url form_a \<noteq> [] \<and> bookmark_a \<in> set [bookmark_a, bookmark_devtools] \<and>
   id_str bookmark_a = ''1'' \<and> url bookmark_a = form_url form_a \<and>
   url bookmark_devtools \<noteq> form_url form_a \<and>
   (\<exists>bs. handleSave 7 7 [bookmark_a, bookmark_devtools] (Some ''1'') form_a = Committed bs) \<and>
   handleSave 7 7 [bookmark_a] None form_a = DuplicateURL \<and>
   handleSave 7 7 [bookmark_a] None form_b \<noteq> DuplicateURL \<and>
   handleSave 7 7 [bookmark_a, bookmark_devtools] (Some ''1'') form_b = DuplicateURL"
proof -
  have v: "validUrl ''a.com'' = ''https://a.com''"
    "validUrl ''https://b.com'' = ''https://b.com''"
    by (simp_all add: eval_defs)
  have h: "hostname_example ''https://a.com'' = Some ''a.com''"
    "hostname_example ''https://b.com'' = Some ''b.com''"
    by (simp_all add: hostname_example_def)
  show ?thesis
    using duplicate_url_check [of hostname_example lookup_down 7 7 "[bookmark_a]" form_bare]
      duplicate_url_check [of hostname_example lookup_down 7 7 "[bookmark_a]" form_b]
      duplicate_url_check [of _ _ 7 7 "[bookmark_a, bookmark_devtools]" _ form_a "''1''"]
      duplicate_url_check [of _ _ 7 7 "[bookmark_a]" _ form_a]
      duplicate_url_check [of _ _ 7 7 "[bookmark_a]" _ form_b]
      duplicate_url_check [of _ _ 7 7 "[bookmark_a, bookmark_devtools]" _ form_b "''1''"]
    by (simp add: v h bookmark_a_def bookmark_devtools_def form_a_def form_b_def form_bare_def
        blank_form_def)
qed

text \<open>
  Counterexample to claim C2 as stated, with the lookup service out of reach. The address
  \<^verbatim>\<open>https://a b\<close> does not parse, so the form keeps it as typed and the first save stores
  it. The draft \<^verbatim>\<open>a b\<close> is then added: its normalized url \<^verbatim>\<open>https://a b\<close> is the url of
  the stored record, the enrichment sets the invalid-url error and leaves the form as
  typed, and the save, which this error does not block, commits a second record.
\<close>

theorem duplicate_url_check_counterexample:
  "blur_then_save hostname_example lookup_down 1700000000000 1700000000001 [] form_spaced_scheme =
     Committed [newBookmark ''1700000000000'' 1700000000001 False form_spaced_scheme] \<and>
   url (newBookmark ''1700000000000'' 1700000000001 False form_spaced_scheme) =
     validUrl (form_url form_spaced) \<and>
   blur_then_save hostname_example lookup_down 1700000000002 1700000000003
     [newBookmark ''1700000000000'' 1700000000001 False form_spaced_scheme] form_spaced =
     Committed [newBookmark ''1700000000002'' 1700000000003 False form_spaced,
                newBookmark ''1700000000000'' 1700000000001 False form_spaced_scheme]"
  by (simp add: eval_defs blur_then_save_def fetchMetadata_def fetchMetadata_request_def
      fetchMetadata_response_def lookup_down_def hostname_example_def form_spaced_def
      form_spaced_scheme_def)

end
